theory Spec2Isabelle
  imports Main "HOL-Library.Sublist" "HOL-Library.Char_ord" "HOL-Library.List_Lexorder"
begin

section \<open>Data model\<close>

text \<open>
  Python integers are unbounded, so the elements of a command list are \<open>int\<close>; the
  conversion \<open>bytes(...)\<close> is where a value outside \<open>0..255\<close> raises.
  A colour is the triple \<open>(r, g, b)\<close> the source unpacks.
\<close>

type_synonym color = "int \<times> int \<times> int"

datatype error =
    ValueError
  | TypeError
  | OSError
  | IndexError
  | FileNotFoundError
  | PermissionError
  | SystemExit int

text \<open>
  A file descriptor returned by \<open>os.open\<close>: the position of the open in the
  run (which makes it fresh) and the device node it was opened on.
\<close>

datatype handle = Handle nat string


text \<open>The texts the program prints, without their formatting.\<close>

datatype message =
    Doc
  | Warn_keyboard_not_found
  | Warn_elc_not_found
  | Msg_static int int int
  | Msg_breathing nat
  | Msg_morphing nat
  | Msg_spectrum
  | Msg_wave
  | Msg_pulsing int int int
  | Msg_off
  | Msg_unknown string

text \<open>
  What the program does to the outside world, in the order it does it: the
  \<open>fcntl.ioctl\<close> of the keyboard transport (request code and buffer), the
  \<open>os.write\<close> of the ring/logo transport, \<open>time.sleep\<close> (in milliseconds),
  \<open>os.open\<close> and \<open>os.close\<close>, a write to a sysfs control file, the
  \<open>subprocess.run\<close> of the rebind fallback, and the two print streams.
\<close>

datatype event =
    Ioctl handle int "int list"
  | OsWrite handle "int list"
  | Sleep nat
  | OsOpen string handle
  | OsClose handle
  | FileWrite string string
  | Subprocess "string list"
  | Stdout message
  | Stderr message

record keyboard =
  kbd_dev :: "string option"
  kbd_fd :: "handle option"

record tron =
  tron_dev :: "string option"
  tron_fd :: "handle option"

text \<open>
  The state of a run: the two controller objects, the effects so far, and the
  environment the program reads. \<open>sysfs\<close> is the file tree (path and content) in the
  order the directory scan yields it. \<open>fail_at\<close> lists the positions of the run
  (number of effects so far) at which a device transfer raises \<open>OSError\<close>. The other
  fields say which operating system calls fail, and with which exception:
  \<open>os.open\<close> and \<open>os.close\<close> by device node, the read of the descriptor file in the
  rebind, the writes to the driver's unbind and bind files, and the start of the
  privileged helper. Sleeping and printing are taken to succeed.
\<close>

record world =
  kbd :: keyboard
  tron :: tron
  trace :: "event list"
  sysfs :: "(string \<times> string) list"
  fail_at :: "nat list"
  os_open_error :: "(string \<times> error) list"
  os_close_error :: "(string \<times> error) list"
  uevent_error :: "error option"
  unbind_error :: "error option"
  bind_error :: "error option"
  pkexec_error :: "error option"

text \<open>
  A statement of the source: it runs in a state and either completes or raises, and the
  effects it had before raising stay.
\<close>

type_synonym action = "world \<Rightarrow> error option \<times> world"

definition emit :: "event \<Rightarrow> action" where
  "emit e w = (None, w\<lparr>trace := trace w @ [e]\<rparr>)"

definition raise :: "error \<Rightarrow> action" where
  "raise e w = (Some e, w)"

definition skip :: action where
  "skip w = (None, w)"

text \<open>Statements in sequence: the first one that raises ends the sequence.\<close>

fun run :: "action list \<Rightarrow> action" where
  "run [] w = (None, w)"
| "run (a # as) w =
     (case a w of
        (Some e, w') \<Rightarrow> (Some e, w')
      | (None, w') \<Rightarrow> run as w')"



section \<open>Python primitives\<close>

text \<open>\<open>bytes(xs)\<close> of a list of integers: every element must be in \<open>range(256)\<close>.\<close>

definition is_byte :: "int \<Rightarrow> bool" where
  "is_byte x \<longleftrightarrow> 0 \<le> x \<and> x < 256"

definition py_bytes :: "int list \<Rightarrow> error + int list" where
  "py_bytes xs = (if list_all is_byte xs then Inr xs else Inl ValueError)"

text \<open>\<open>[0] * n\<close>: empty when \<open>n\<close> is negative.\<close>

definition py_zeros :: "int \<Rightarrow> int list" where
  "py_zeros n = replicate (nat n) 0"

text \<open>\<open>range(start, stop, step)\<close> for a positive step, as the list it iterates over.\<close>

function py_range :: "nat \<Rightarrow> nat \<Rightarrow> nat \<Rightarrow> nat list" where
  "py_range i stop step =
     (if step = 0 \<or> stop \<le> i then [] else i # py_range (i + step) stop step)"
  by pat_completeness auto
termination
  by (relation "measure (\<lambda>(i, stop, step). stop - i)") auto

declare py_range.simps [simp del]

definition time_sleep :: "nat \<Rightarrow> action" where
  "time_sleep ms = emit (Sleep ms)"

text \<open>
  A transfer to the device: \<open>TypeError\<close> when the descriptor is \<open>None\<close>,
  \<open>OSError\<close> when the environment refuses it.
\<close>

definition device_io :: "handle option \<Rightarrow> (handle \<Rightarrow> event) \<Rightarrow> action" where
  "device_io fd ev w =
     (case fd of
        None \<Rightarrow> (Some TypeError, w)
      | Some h \<Rightarrow>
          if length (trace w) \<in> set (fail_at w) then (Some OSError, w)
          else emit (ev h) w)"

text \<open>The request code of the set-feature control operation for a buffer of \<open>l\<close> bytes.\<close>

definition HIDIOCSFEATURE :: "int \<Rightarrow> int" where
  "HIDIOCSFEATURE l = or 0xC0004806 (push_bit 16 l)"

section \<open>Keyboard\<close>

text \<open>The list \<open>_send\<close> hands to \<open>bytes\<close>: report id, payload, padding.\<close>

definition Keyboard_frame :: "int list \<Rightarrow> int list" where
  "Keyboard_frame data = [0xCC] @ data @ py_zeros (64 - 1 - int (length data))"

definition Keyboard_send :: "int list \<Rightarrow> action" where
  "Keyboard_send data w =
     (case py_bytes (Keyboard_frame data) of
        Inl e \<Rightarrow> (Some e, w)
      | Inr pkt \<Rightarrow> device_io (kbd_fd (kbd w)) (\<lambda>h. Ioctl h (HIDIOCSFEATURE 64) pkt) w)"

definition Keyboard_reset :: action where
  "Keyboard_reset = run [Keyboard_send [0x94], time_sleep 50]"

definition Keyboard_commit :: action where
  "Keyboard_commit = Keyboard_send [0x8b, 0x01, 0xFF]"

text \<open>The \<open>data\<close> of one iteration of \<open>_set_all_keys\<close>, for the chunk that starts at key \<open>i\<close>.\<close>

definition Keyboard_chunk :: "nat \<Rightarrow> int \<Rightarrow> int \<Rightarrow> int \<Rightarrow> int list" where
  "Keyboard_chunk i r g b =
     [0x8c, 0x02, 0x00] @ concat (map (\<lambda>k. [int k + 1, r, g, b]) [i ..< min (i + 15) 0x88])"

definition Keyboard_set_all_keys :: "int \<Rightarrow> int \<Rightarrow> int \<Rightarrow> action" where
  "Keyboard_set_all_keys r g b =
     run (map (\<lambda>i. run [Keyboard_send (Keyboard_chunk i r g b), time_sleep 10])
            (py_range 0 0x88 15)
          @ [Keyboard_send [0x8c, 0x13], time_sleep 10])"

definition Keyboard_disable_effect :: action where
  "Keyboard_disable_effect =
     run [Keyboard_send [0x80, 0x01, 0xFE, 0x00, 0x00, 0x01, 0x01, 0x01], time_sleep 50]"

text \<open>The \<open>data\<close> that \<open>_global_effect\<close> builds.\<close>

definition Keyboard_effect_data :: "int \<Rightarrow> int \<Rightarrow> color list \<Rightarrow> int list" where
  "Keyboard_effect_data eff_type tempo colors =
     [0x80, eff_type, tempo, 0x00, 0x00, 0x01, 0x01, 0x01]
     @ [int (length colors) - 1]
     @ concat (map (\<lambda>(r, g, b). [r, g, b]) colors)"

definition Keyboard_global_effect :: "int \<Rightarrow> int \<Rightarrow> color list \<Rightarrow> action" where
  "Keyboard_global_effect eff_type tempo colors =
     run [Keyboard_send (Keyboard_effect_data eff_type tempo colors), time_sleep 50]"

definition Keyboard_static :: "int \<Rightarrow> int \<Rightarrow> int \<Rightarrow> action" where
  "Keyboard_static r g b =
     run [Keyboard_reset, Keyboard_disable_effect, Keyboard_set_all_keys r g b, Keyboard_commit]"

definition Keyboard_breathe :: "color list \<Rightarrow> action" where
  "Keyboard_breathe colors =
     run [Keyboard_reset, Keyboard_disable_effect,
          Keyboard_global_effect 0x02 0x07 colors, Keyboard_commit]"

definition Keyboard_spectrum :: action where
  "Keyboard_spectrum =
     run [Keyboard_reset, Keyboard_disable_effect,
          Keyboard_global_effect 0x02 0x05 [(0xFF, 0, 0), (0, 0xFF, 0), (0, 0, 0xFF)],
          Keyboard_commit]"

definition Keyboard_wave :: action where
  "Keyboard_wave =
     run [Keyboard_reset, Keyboard_disable_effect,
          Keyboard_global_effect 0x03 0x05 [(0xFF, 0, 0), (0, 0xFF, 0), (0, 0, 0xFF)],
          Keyboard_commit]"

definition Keyboard_pulse :: "int \<Rightarrow> int \<Rightarrow> int \<Rightarrow> action" where
  "Keyboard_pulse r g b =
     run [Keyboard_reset, Keyboard_disable_effect,
          Keyboard_global_effect 0x08 0x07 [(r, g, b)], Keyboard_commit]"

definition Keyboard_morph :: "color list \<Rightarrow> action" where
  "Keyboard_morph colors =
     run [Keyboard_reset, Keyboard_disable_effect,
          Keyboard_global_effect 0x02 0x05 colors, Keyboard_commit]"

definition Keyboard_off :: action where
  "Keyboard_off = Keyboard_static 0 0 0"

section \<open>Ring and logos\<close>

definition RING_ZONES :: "int list" where
  "RING_ZONES = map int [10 ..< 20]"

definition LOGO_ZONES :: "int list" where
  "LOGO_ZONES = [0, 1]"

definition POWER_STATES :: "int list" where
  "POWER_STATES = [0x5b, 0x5c, 0x5d, 0x5e, 0x5f, 0x60]"

definition MORPH_EFFECT :: int where "MORPH_EFFECT = 0x02"
definition COLOR_EFFECT :: int where "COLOR_EFFECT = 0x00"
definition COLOR_MODE :: int where "COLOR_MODE = 0xD0"
definition MORPH_MODE :: int where "MORPH_MODE = 0xCF"
definition PULSE_MODE :: int where "PULSE_MODE = 0xDC"

text \<open>The list \<open>_send\<close> hands to \<open>bytes\<close>: report id, payload, padding.\<close>

definition Tron_frame :: "int list \<Rightarrow> int list" where
  "Tron_frame data = [0x03] @ data @ py_zeros (33 - 1 - int (length data))"

definition Tron_send :: "int list \<Rightarrow> action" where
  "Tron_send data w =
     (case py_bytes (Tron_frame data) of
        Inl e \<Rightarrow> (Some e, w)
      | Inr pkt \<Rightarrow> run [device_io (tron_fd (tron w)) (\<lambda>h. OsWrite h pkt), time_sleep 20] w)"

definition Tron_set_ring :: "int list \<Rightarrow> int list option \<Rightarrow> action" where
  "Tron_set_ring actions zones_arg =
     (let zones = (case zones_arg of None \<Rightarrow> RING_ZONES | Some zs \<Rightarrow> zs) in
      run [Tron_send [0x21, 0x00, 0x04, 0x00, 0xFF],
           Tron_send [0x21, 0x00, 0x01, 0x00, 0xFF],
           Tron_send ([0x23, 0x01, 0x00, int (length zones)] @ zones),
           Tron_send ([0x24] @ actions),
           Tron_send [0x21, 0x00, 0x03, 0x00, 0xFF]])"

definition Tron_set_logos :: "int list \<Rightarrow> int list option \<Rightarrow> action" where
  "Tron_set_logos actions zones_arg =
     (let zones = (case zones_arg of None \<Rightarrow> LOGO_ZONES | Some zs \<Rightarrow> zs) in
      run ([Tron_send [0x21, 0x00, 0x03, 0x00, 0xFF],
            time_sleep 50]
           @ map (\<lambda>state.
                run [Tron_send [0x22, 0x00, 0x04, 0x00, state],
                     Tron_send [0x22, 0x00, 0x01, 0x00, state],
                     Tron_send ([0x23, 0x01, 0x00, int (length zones)] @ zones),
                     Tron_send ([0x24] @ actions),
                     Tron_send [0x22, 0x00, 0x02, 0x00, state]])
               POWER_STATES
           @ [Tron_send [0x21, 0x00, 0x05, 0x00, 0xFF]]))"

definition Tron_static_action :: "int \<Rightarrow> int \<Rightarrow> int \<Rightarrow> int list" where
  "Tron_static_action r g b = [COLOR_EFFECT, 0x07, COLOR_MODE, 0x00, 0xFA, r, g, b]"

definition Tron_morph_actions :: "color list \<Rightarrow> int list" where
  "Tron_morph_actions colors =
     concat (map (\<lambda>(r, g, b). [MORPH_EFFECT, 0x07, MORPH_MODE, 0x00, 0x64, r, g, b])
               (take 3 colors))"

definition Tron_pulse_action :: "int \<Rightarrow> int \<Rightarrow> int \<Rightarrow> int list" where
  "Tron_pulse_action r g b = [0x01, 0x07, PULSE_MODE, 0x00, 0x64, r, g, b]"

definition Tron_static :: "int \<Rightarrow> int \<Rightarrow> int \<Rightarrow> bool \<Rightarrow> bool \<Rightarrow> action" where
  "Tron_static r g b ring logos =
     (let action = Tron_static_action r g b in
      run [if ring then Tron_set_ring action None else skip,
           if logos then Tron_set_logos action None else skip])"

definition Tron_breathe :: "color list \<Rightarrow> bool \<Rightarrow> bool \<Rightarrow> action" where
  "Tron_breathe colors ring logos =
     (let actions = Tron_morph_actions colors in
      run [if ring then Tron_set_ring actions None else skip,
           if logos then Tron_set_logos actions None else skip])"

definition Tron_morph :: "color list \<Rightarrow> bool \<Rightarrow> bool \<Rightarrow> action" where
  "Tron_morph colors ring logos = Tron_breathe colors ring logos"

definition Tron_spectrum :: "bool \<Rightarrow> bool \<Rightarrow> action" where
  "Tron_spectrum ring logos =
     Tron_breathe [(0xFF, 0, 0), (0, 0xFF, 0), (0, 0, 0xFF)] ring logos"

definition Tron_pulse :: "int \<Rightarrow> int \<Rightarrow> int \<Rightarrow> bool \<Rightarrow> bool \<Rightarrow> action" where
  "Tron_pulse r g b ring logos =
     (let action = Tron_pulse_action r g b in
      run [if ring then Tron_set_ring action None else skip,
           if logos then Tron_set_logos action None else skip])"

definition Tron_off :: "bool \<Rightarrow> bool \<Rightarrow> action" where
  "Tron_off ring logos = Tron_static 0 0 0 ring logos"

section \<open>Strings\<close>

text \<open>
  A character is a code point below 256, so that the order of \<open>sorted\<close> on strings
  is the lexicographic order of character lists.
\<close>

text \<open>\<open>sub in s\<close> on strings: \<open>sub\<close> occurs in \<open>s\<close> as a contiguous piece.\<close>

fun py_in :: "string \<Rightarrow> string \<Rightarrow> bool" where
  "py_in sub [] = (sub = [])"
| "py_in sub (c # cs) = (prefix sub (c # cs) \<or> py_in sub cs)"

text \<open>\<open>s.split(sep)\<close> for a separator of one character: never empty.\<close>

fun py_split :: "char \<Rightarrow> string \<Rightarrow> string list" where
  "py_split sep [] = [[]]"
| "py_split sep (c # cs) =
     (if c = sep then [] # py_split sep cs
      else (case py_split sep cs of
              [] \<Rightarrow> [[c]]
            | p # ps \<Rightarrow> (c # p) # ps))"





section \<open>Device locator\<close>

text \<open>
  \<open>glob.glob("/sys/class/hidraw/hidraw*/device/uevent")\<close>: the paths of the tree with
  these seven components, in the order of the scan.
\<close>

definition is_hidraw_uevent :: "string \<Rightarrow> bool" where
  "is_hidraw_uevent p \<longleftrightarrow>
     (case py_split CHR ''/'' p of
        [a, b, c, d, e, f, g] \<Rightarrow>
          a = [] \<and> b = ''sys'' \<and> c = ''class'' \<and> d = ''hidraw'' \<and> prefix ''hidraw'' e
          \<and> f = ''device'' \<and> g = ''uevent''
      | _ \<Rightarrow> False)"

definition glob_hidraw :: "world \<Rightarrow> string list" where
  "glob_hidraw w = filter is_hidraw_uevent (map fst (sysfs w))"

fun find_hidraw_loop :: "(string \<Rightarrow> string option) \<Rightarrow> string \<Rightarrow> string \<Rightarrow> string list
    \<Rightarrow> error + string option" where
  "find_hidraw_loop rd vid pid [] = Inr None"
| "find_hidraw_loop rd vid pid (path # paths) =
     (case rd path of
        None \<Rightarrow> Inl FileNotFoundError
      | Some content \<Rightarrow>
          if py_in vid content \<and> py_in pid content then
            (let parts = py_split CHR ''/'' path in
             if 4 < length parts then Inr (Some (''/dev/'' @ parts ! 4)) else Inl IndexError)
          else find_hidraw_loop rd vid pid paths)"

definition find_hidraw :: "world \<Rightarrow> string \<Rightarrow> string \<Rightarrow> error + string option" where
  "find_hidraw w vid pid = find_hidraw_loop (map_of (sysfs w)) vid pid (sort (glob_hidraw w))"


section \<open>Sessions\<close>














section \<open>Command line\<close>














section \<open>Observations on a run\<close>

definition kbd_ready :: "world \<Rightarrow> bool" where
  "kbd_ready w \<longleftrightarrow> kbd_fd (kbd w) \<noteq> None \<and> fail_at w = []"

definition kbd_ioctl :: "world \<Rightarrow> int list \<Rightarrow> event" where
  "kbd_ioctl w data = Ioctl (the (kbd_fd (kbd w))) (HIDIOCSFEATURE 64) (Keyboard_frame data)"

fun sent_frames :: "event list \<Rightarrow> int list list" where
  "sent_frames [] = []"
| "sent_frames (Ioctl h req buf # es) = buf # sent_frames es"
| "sent_frames (e # es) = sent_frames es"

definition emitted :: "action \<Rightarrow> world \<Rightarrow> event list" where
  "emitted a w = drop (length (trace w)) (trace (snd (a w)))"

definition starts_reset_disable :: "action \<Rightarrow> world \<Rightarrow> bool" where
  "starts_reset_disable m w \<longleftrightarrow>
     take 2 (sent_frames (emitted m w)) =
       [Keyboard_frame [0x94], Keyboard_frame [0x80, 0x01, 0xFE, 0x00, 0x00, 0x01, 0x01, 0x01]]"

definition ends_commit :: "action \<Rightarrow> world \<Rightarrow> bool" where
  "ends_commit m w \<longleftrightarrow>
     fst (m w) = None \<and> 3 \<le> length (sent_frames (emitted m w)) \<and>
     last (sent_frames (emitted m w)) = Keyboard_frame [0x8b, 0x01, 0xFF]"

definition colors_ok :: "color list \<Rightarrow> bool" where
  "colors_ok colors \<longleftrightarrow>
     colors \<noteq> [] \<and> length colors \<le> 256 \<and>
     list_all (\<lambda>(r, g, b). is_byte r \<and> is_byte g \<and> is_byte b) colors"

definition traces_only :: "action \<Rightarrow> bool" where
  "traces_only a \<longleftrightarrow> (\<forall>w. \<exists>evs. snd (a w) = w\<lparr>trace := trace w @ evs\<rparr>)"

definition demo_world :: world where
  "demo_world =
     \<lparr>kbd = \<lparr>kbd_dev = Some ''/dev/hidraw0'', kbd_fd = Some (Handle 0 ''/dev/hidraw0'')\<rparr>,
      tron = \<lparr>tron_dev = Some ''/dev/hidraw1'', tron_fd = Some (Handle 1 ''/dev/hidraw1'')\<rparr>,
      trace = [], sysfs = [], fail_at = [], os_open_error = [], os_close_error = [],
      uevent_error = None, unbind_error = None, bind_error = None, pkexec_error = None\<rparr>"

text \<open>A state with only the keyboard session open, and one with only the ring/logo session.\<close>

definition kbd_only_world :: world where
  "kbd_only_world =
     \<lparr>kbd = \<lparr>kbd_dev = Some ''/dev/hidraw0'', kbd_fd = Some (Handle 0 ''/dev/hidraw0'')\<rparr>,
      tron = \<lparr>tron_dev = None, tron_fd = None\<rparr>,
      trace = [], sysfs = [], fail_at = [], os_open_error = [], os_close_error = [],
      uevent_error = None, unbind_error = None, bind_error = None, pkexec_error = None\<rparr>"

definition tron_only_world :: world where
  "tron_only_world =
     \<lparr>kbd = \<lparr>kbd_dev = None, kbd_fd = None\<rparr>,
      tron = \<lparr>tron_dev = Some ''/dev/hidraw1'', tron_fd = Some (Handle 0 ''/dev/hidraw1'')\<rparr>,
      trace = [], sysfs = [], fail_at = [], os_open_error = [], os_close_error = [],
      uevent_error = None, unbind_error = None, bind_error = None, pkexec_error = None\<rparr>"

definition rainbow19 :: "color list" where
  "rainbow19 = replicate 19 (0xFF, 0x14, 0x93)"

definition tron_ready :: "world \<Rightarrow> bool" where
  "tron_ready w \<longleftrightarrow> tron_fd (tron w) \<noteq> None \<and> fail_at w = []"

definition tron_write :: "world \<Rightarrow> int list \<Rightarrow> event" where
  "tron_write w data = OsWrite (the (tron_fd (tron w))) (Tron_frame data)"

definition sample_sysfs :: "(string \<times> string) list" where
  "sample_sysfs =
     [(''/sys/class/hidraw/hidraw2/device/uevent'',
       ''HID_ID=0003:00000D62:0000BABC'' @ [CHR 0x0A] @ ''HID_PHYS=usb-3/input1'' @ [CHR 0x0A]),
      (''/sys/class/hidraw/hidraw1/device/uevent'',
       ''HID_ID=0003:0000187C:00000550'' @ [CHR 0x0A] @ ''HID_PHYS=usb-2/input0'' @ [CHR 0x0A]),
      (''/sys/class/hidraw/hidraw0/device/uevent'',
       ''HID_ID=0003:00000D62:0000BABC'' @ [CHR 0x0A] @ ''HID_PHYS=usb-1/input0'' @ [CHR 0x0A])]"

definition sample_world :: world where
  "sample_world =
     \<lparr>kbd = \<lparr>kbd_dev = None, kbd_fd = None\<rparr>,
      tron = \<lparr>tron_dev = None, tron_fd = None\<rparr>,
      trace = [], sysfs = sample_sysfs, fail_at = [], os_open_error = [], os_close_error = [],
      uevent_error = None, unbind_error = None, bind_error = None, pkexec_error = None\<rparr>"


text \<open>The effects of opening, closing and rebinding, as opposed to those of an encoder.\<close>

fun is_session_event :: "event \<Rightarrow> bool" where
  "is_session_event (OsOpen d h) = True"
| "is_session_event (OsClose h) = True"
| "is_session_event (FileWrite p s) = True"
| "is_session_event (Subprocess args) = True"
| "is_session_event e = False"

text \<open>An action that leaves the state alone but for encoder effects added to the trace.\<close>

definition transfers_only :: "action \<Rightarrow> bool" where
  "transfers_only a \<longleftrightarrow>
     (\<forall>w. \<exists>evs. snd (a w) = w\<lparr>trace := trace w @ evs\<rparr> \<and> \<not> list_ex is_session_event evs)"




section \<open>Proofs\<close>

lemma run_append:
  "run (as @ bs) w = (case run as w of (Some e, w') \<Rightarrow> (Some e, w') | (None, w') \<Rightarrow> run bs w')"
  by (induction as arbitrary: w) (auto split: prod.splits option.splits)

lemma py_bytes_ok: "list_all is_byte xs \<Longrightarrow> py_bytes xs = Inr xs"
  by (simp add: py_bytes_def)

lemma Keyboard_frame_bytes: "list_all is_byte (Keyboard_frame data) = list_all is_byte data"
  by (auto simp add: Keyboard_frame_def py_zeros_def is_byte_def list_all_iff)

lemma Tron_frame_bytes: "list_all is_byte (Tron_frame data) = list_all is_byte data"
  by (auto simp add: Tron_frame_def py_zeros_def is_byte_def list_all_iff)

lemma Keyboard_send_ok:
  assumes "kbd_fd (kbd w) = Some h" "length (trace w) \<notin> set (fail_at w)" "list_all is_byte data"
  shows "Keyboard_send data w =
    (None, w\<lparr>trace := trace w @ [Ioctl h (HIDIOCSFEATURE 64) (Keyboard_frame data)]\<rparr>)"
  using assms
  by (simp add: Keyboard_send_def py_bytes_ok Keyboard_frame_bytes device_io_def emit_def)

lemma Tron_send_ok:
  assumes "tron_fd (tron w) = Some h" "length (trace w) \<notin> set (fail_at w)" "list_all is_byte data"
  shows "Tron_send data w =
    (None, w\<lparr>trace := trace w @ [OsWrite h (Tron_frame data), Sleep 20]\<rparr>)"
  using assms
  by (simp add: Tron_send_def py_bytes_ok Tron_frame_bytes device_io_def emit_def time_sleep_def)

lemma Keyboard_frame_length: "length data \<le> 63 \<Longrightarrow> length (Keyboard_frame data) = 64"
  by (simp add: Keyboard_frame_def py_zeros_def)


lemma run_map_emits:
  assumes "\<And>x w. x \<in> set xs \<Longrightarrow> P w \<Longrightarrow> f x w = (None, w\<lparr>trace := trace w @ g x\<rparr>)"
    and "\<And>w evs. P w \<Longrightarrow> P (w\<lparr>trace := evs\<rparr>)"
    and "P w"
  shows "run (map f xs) w = (None, w\<lparr>trace := trace w @ concat (map g xs)\<rparr>)"
  using assms
proof (induction xs arbitrary: w)
  case Nil
  then show ?case by simp
next
  case (Cons x xs)
  have "P (w\<lparr>trace := trace w @ g x\<rparr>)" using Cons.prems(2,3) by blast
  then have "run (map f xs) (w\<lparr>trace := trace w @ g x\<rparr>) =
      (None, w\<lparr>trace := trace w @ g x\<rparr>\<lparr>trace := trace (w\<lparr>trace := trace w @ g x\<rparr>) @ concat (map g xs)\<rparr>)"
    using Cons.IH[of "w\<lparr>trace := trace w @ g x\<rparr>"] Cons.prems(1,2) by simp
  then show ?case using Cons.prems(1)[of x w] Cons.prems(3) by simp
qed

lemma kbd_ready_trace [simp]: "kbd_ready (w\<lparr>trace := evs\<rparr>) = kbd_ready w"
  by (simp add: kbd_ready_def)

lemma kbd_ioctl_trace [simp]: "kbd_ioctl (w\<lparr>trace := evs\<rparr>) = kbd_ioctl w"
  by (simp add: kbd_ioctl_def fun_eq_iff)

lemma Keyboard_send_ready:
  "kbd_ready w \<Longrightarrow> list_all is_byte data \<Longrightarrow>
   Keyboard_send data w = (None, w\<lparr>trace := trace w @ [kbd_ioctl w data]\<rparr>)"
  by (auto simp add: kbd_ready_def kbd_ioctl_def Keyboard_send_ok)

lemma Keyboard_chunk_bytes:
  "is_byte r \<Longrightarrow> is_byte g \<Longrightarrow> is_byte b \<Longrightarrow> list_all is_byte (Keyboard_chunk i r g b)"
  by (auto simp add: Keyboard_chunk_def is_byte_def list_all_iff)

lemma Keyboard_reset_ok:
  "kbd_ready w \<Longrightarrow> Keyboard_reset w =
     (None, w\<lparr>trace := trace w @ [kbd_ioctl w [0x94], Sleep 50]\<rparr>)"
  by (simp add: Keyboard_reset_def Keyboard_send_ready is_byte_def time_sleep_def emit_def)

lemma Keyboard_disable_effect_ok:
  "kbd_ready w \<Longrightarrow> Keyboard_disable_effect w =
     (None, w\<lparr>trace := trace w @
        [kbd_ioctl w [0x80, 0x01, 0xFE, 0x00, 0x00, 0x01, 0x01, 0x01], Sleep 50]\<rparr>)"
  by (simp add: Keyboard_disable_effect_def Keyboard_send_ready is_byte_def time_sleep_def emit_def)

lemma Keyboard_commit_ok:
  "kbd_ready w \<Longrightarrow> Keyboard_commit w =
     (None, w\<lparr>trace := trace w @ [kbd_ioctl w [0x8b, 0x01, 0xFF]]\<rparr>)"
  by (simp add: Keyboard_commit_def Keyboard_send_ready is_byte_def)

lemma py_range_keys: "py_range 0 0x88 15 = map (\<lambda>j. 15 * j) [0..<10]"
  by code_simp

lemma Keyboard_set_all_keys_ok:
  assumes "kbd_ready w" "is_byte r" "is_byte g" "is_byte b"
  shows "Keyboard_set_all_keys r g b w =
     (None, w\<lparr>trace := trace w @
        concat (map (\<lambda>i. [kbd_ioctl w (Keyboard_chunk i r g b), Sleep 10]) (py_range 0 0x88 15))
        @ [kbd_ioctl w [0x8c, 0x13], Sleep 10]\<rparr>)"
proof -
  let ?f = "\<lambda>i. run [Keyboard_send (Keyboard_chunk i r g b), time_sleep 10]"
  let ?g = "\<lambda>i. [kbd_ioctl w (Keyboard_chunk i r g b), Sleep 10]"
  have loop: "run (map ?f (py_range 0 0x88 15)) w =
      (None, w\<lparr>trace := trace w @ concat (map ?g (py_range 0 0x88 15))\<rparr>)"
  proof (rule run_map_emits[where P = "\<lambda>v. kbd_ready v \<and> kbd_ioctl v = kbd_ioctl w"])
    fix x v
    assume "kbd_ready v \<and> kbd_ioctl v = kbd_ioctl w"
    then show "run [Keyboard_send (Keyboard_chunk x r g b), time_sleep 10] v =
        (None, v\<lparr>trace := trace v @ [kbd_ioctl w (Keyboard_chunk x r g b), Sleep 10]\<rparr>)"
      using assms(2-4)
      by (simp add: Keyboard_send_ready Keyboard_chunk_bytes time_sleep_def emit_def)
  qed (simp_all add: assms)
  show ?thesis
    unfolding Keyboard_set_all_keys_def run_append loop
    using assms(1) by (simp add: Keyboard_send_ready is_byte_def time_sleep_def emit_def)
qed

lemma Keyboard_static_ok:
  assumes "kbd_ready w" "is_byte r" "is_byte g" "is_byte b"
  shows "Keyboard_static r g b w =
     (None, w\<lparr>trace := trace w @
        [kbd_ioctl w [0x94], Sleep 50,
         kbd_ioctl w [0x80, 0x01, 0xFE, 0x00, 0x00, 0x01, 0x01, 0x01], Sleep 50]
        @ concat (map (\<lambda>i. [kbd_ioctl w (Keyboard_chunk i r g b), Sleep 10]) (py_range 0 0x88 15))
        @ [kbd_ioctl w [0x8c, 0x13], Sleep 10, kbd_ioctl w [0x8b, 0x01, 0xFF]]\<rparr>)"
  using assms
  by (simp add: Keyboard_static_def Keyboard_reset_ok Keyboard_disable_effect_ok
      Keyboard_set_all_keys_ok Keyboard_commit_ok)

lemma nth_concat_blocks:
  assumes "\<And>x. x \<in> set xs \<Longrightarrow> length (f x) = k" and "p < length xs" and "q < k"
  shows "concat (map f xs) ! (k * p + q) = f (xs ! p) ! q"
  using assms
proof (induction xs arbitrary: p)
  case Nil
  then show ?case by simp
next
  case (Cons x xs)
  show ?case
  proof (cases p)
    case 0
    then show ?thesis using Cons.prems by (simp add: nth_append)
  next
    case (Suc p')
    have "concat (map f xs) ! (k * p' + q) = f (xs ! p') ! q"
      using Cons.IH[of p'] Cons.prems Suc by simp
    then show ?thesis using Cons.prems Suc by (simp add: nth_append)
  qed
qed

lemma length_concat_blocks:
  "(\<And>x. x \<in> set xs \<Longrightarrow> length (f x) = k) \<Longrightarrow> length (concat (map f xs)) = k * length xs"
  by (induction xs) simp_all

lemma Keyboard_chunk_length:
  "length (Keyboard_chunk i r g b) = 3 + 4 * (min (i + 15) 0x88 - i)"
  by (simp add: Keyboard_chunk_def length_concat_blocks[where k = 4])

lemma Keyboard_chunk_key:
  assumes "p < min (i + 15) 0x88 - i"
  shows "Keyboard_chunk i r g b ! (3 + 4 * p) = int (i + p) + 1"
    and "Keyboard_chunk i r g b ! (3 + 4 * p + 1) = r"
    and "Keyboard_chunk i r g b ! (3 + 4 * p + 2) = g"
    and "Keyboard_chunk i r g b ! (3 + 4 * p + 3) = b"
proof -
  let ?f = "\<lambda>k. [int k + 1, r, g, b]"
  let ?xs = "[i ..< min (i + 15) 0x88]"
  have n: "\<And>q. q < 4 \<Longrightarrow> Keyboard_chunk i r g b ! (3 + (4 * p + q)) = ?f (?xs ! p) ! q"
    using assms nth_concat_blocks[of ?xs ?f 4 p]
    by (simp add: Keyboard_chunk_def nth_append)
  show "Keyboard_chunk i r g b ! (3 + 4 * p) = int (i + p) + 1"
    using n[of 0] assms by (simp add: less_diff_conv add.commute)
  show "Keyboard_chunk i r g b ! (3 + 4 * p + 1) = r"
    using n[of 1] by (simp add: add.assoc)
  show "Keyboard_chunk i r g b ! (3 + 4 * p + 2) = g"
    using n[of 2] by (simp add: add.assoc)
  show "Keyboard_chunk i r g b ! (3 + 4 * p + 3) = b"
    using n[of 3] by (simp add: add.assoc)
qed

lemma traces_onlyI: "(\<And>w. \<exists>evs. snd (a w) = w\<lparr>trace := trace w @ evs\<rparr>) \<Longrightarrow> traces_only a"
  by (simp add: traces_only_def)

lemma traces_onlyD: "traces_only a \<Longrightarrow> \<exists>evs. snd (a w) = w\<lparr>trace := trace w @ evs\<rparr>"
  by (simp add: traces_only_def)


lemma traces_only_emit [simp]: "traces_only (emit e)"
  by (rule traces_onlyI) (auto simp add: emit_def)

lemma traces_only_raise [simp]: "traces_only (raise e)"
  by (rule traces_onlyI) (auto simp add: raise_def intro: exI[of _ "[]"])

lemma traces_only_skip [simp]: "traces_only skip"
  by (rule traces_onlyI) (auto simp add: skip_def intro: exI[of _ "[]"])

lemma traces_only_sleep [simp]: "traces_only (time_sleep n)"
  by (simp add: time_sleep_def)

lemma traces_only_device_io [simp]: "traces_only (device_io fd ev)"
  by (rule traces_onlyI) (auto simp add: device_io_def emit_def split: option.splits intro: exI[of _ "[]"])

lemma traces_only_run: "list_all traces_only as \<Longrightarrow> traces_only (run as)"
proof (induction as)
  case Nil
  show ?case by (rule traces_onlyI) (auto intro: exI[of _ "[]"])
next
  case (Cons a as)
  then have a: "traces_only a" and r: "traces_only (run as)" by simp_all
  show ?case
  proof (rule traces_onlyI)
    fix w
    obtain r1 w1 where aw: "a w = (r1, w1)" by (cases "a w")
    obtain e1 where w1: "w1 = w\<lparr>trace := trace w @ e1\<rparr>"
      using traces_onlyD[OF a, of w] aw by auto
    show "\<exists>evs. snd (run (a # as) w) = w\<lparr>trace := trace w @ evs\<rparr>"
    proof (cases r1)
      case (Some e)
      then show ?thesis using aw w1 by auto
    next
      case None
      obtain e2 where "snd (run as w1) = w1\<lparr>trace := trace w1 @ e2\<rparr>"
        using traces_onlyD[OF r, of w1] by auto
      then have "snd (run (a # as) w) = w\<lparr>trace := trace w @ (e1 @ e2)\<rparr>"
        using aw None w1 by simp
      then show ?thesis by blast
    qed
  qed
qed

lemma traces_only_Keyboard_send [simp]: "traces_only (Keyboard_send data)"
  by (rule traces_onlyI)
     (auto simp add: Keyboard_send_def device_io_def emit_def split: sum.splits option.splits
           intro: exI[of _ "[]"])

lemma traces_only_Tron_send [simp]: "traces_only (Tron_send data)"
  by (rule traces_onlyI)
     (auto simp add: Tron_send_def device_io_def emit_def time_sleep_def
           split: sum.splits option.splits intro: exI[of _ "[]"])

lemma traces_only_Keyboard_commit [simp]: "traces_only Keyboard_commit"
  by (simp add: Keyboard_commit_def)

lemma traces_only_Keyboard_global_effect [simp]: "traces_only (Keyboard_global_effect t tempo colors)"
  by (simp add: Keyboard_global_effect_def traces_only_run)

lemma traces_only_Keyboard_set_all_keys [simp]: "traces_only (Keyboard_set_all_keys r g b)"
  unfolding Keyboard_set_all_keys_def
  by (rule traces_only_run) (simp add: list_all_iff traces_only_run)

text \<open>A keyboard effect is reset, disable-effect, the effect's own commands, commit.\<close>

lemma emitted_prefix:
  assumes "kbd_ready w" and "traces_only body"
  shows "\<exists>evs. emitted (run [Keyboard_reset, Keyboard_disable_effect, body, Keyboard_commit]) w =
      [kbd_ioctl w [0x94], Sleep 50,
       kbd_ioctl w [0x80, 0x01, 0xFE, 0x00, 0x00, 0x01, 0x01, 0x01], Sleep 50] @ evs"
proof -
  let ?w2 = "w\<lparr>trace := trace w @ [kbd_ioctl w [0x94], Sleep 50,
       kbd_ioctl w [0x80, 0x01, 0xFE, 0x00, 0x00, 0x01, 0x01, 0x01], Sleep 50]\<rparr>"
  have "traces_only (run [body, Keyboard_commit])"
    using assms(2) by (simp add: traces_only_run)
  then obtain evs where e: "snd (run [body, Keyboard_commit] ?w2) = ?w2\<lparr>trace := trace ?w2 @ evs\<rparr>"
    using traces_onlyD by blast
  have "run [Keyboard_reset, Keyboard_disable_effect, body, Keyboard_commit] w =
      run [body, Keyboard_commit] ?w2"
    using assms(1) by (simp add: Keyboard_reset_ok Keyboard_disable_effect_ok)
  then show ?thesis using e by (simp add: emitted_def)
qed

lemma starts_reset_disable_run:
  assumes "kbd_ready w" and "traces_only body"
  shows "starts_reset_disable (run [Keyboard_reset, Keyboard_disable_effect, body, Keyboard_commit]) w"
  using emitted_prefix[OF assms]
  by (auto simp add: starts_reset_disable_def kbd_ioctl_def)

lemma sent_frames_append: "sent_frames (xs @ ys) = sent_frames xs @ sent_frames ys"
  by (induction xs rule: sent_frames.induct) simp_all

lemma ends_commit_run:
  assumes "kbd_ready w"
    and "\<And>v. kbd_ready v \<Longrightarrow> \<exists>evs. body v = (None, v\<lparr>trace := trace v @ evs\<rparr>)"
  shows "ends_commit (run [Keyboard_reset, Keyboard_disable_effect, body, Keyboard_commit]) w"
proof -
  let ?w2 = "w\<lparr>trace := trace w @ [kbd_ioctl w [0x94], Sleep 50,
       kbd_ioctl w [0x80, 0x01, 0xFE, 0x00, 0x00, 0x01, 0x01, 0x01], Sleep 50]\<rparr>"
  obtain evs where b: "body ?w2 = (None, ?w2\<lparr>trace := trace ?w2 @ evs\<rparr>)"
    using assms(2)[of ?w2] assms(1) by auto
  have "run [Keyboard_reset, Keyboard_disable_effect, body, Keyboard_commit] w =
      (None, w\<lparr>trace := trace w @ [kbd_ioctl w [0x94], Sleep 50,
       kbd_ioctl w [0x80, 0x01, 0xFE, 0x00, 0x00, 0x01, 0x01, 0x01], Sleep 50] @ evs
       @ [kbd_ioctl w [0x8b, 0x01, 0xFF]]\<rparr>)"
    using assms(1) b by (simp add: Keyboard_reset_ok Keyboard_disable_effect_ok Keyboard_commit_ok)
  then show ?thesis
    by (simp add: ends_commit_def emitted_def sent_frames_append kbd_ioctl_def)
qed

lemma Keyboard_effect_data_bytes:
  assumes "is_byte t" "is_byte tempo" "colors_ok colors"
  shows "list_all is_byte (Keyboard_effect_data t tempo colors)"
  using assms
  by (auto simp add: Keyboard_effect_data_def colors_ok_def list_all_iff is_byte_def)

lemma Keyboard_global_effect_ok:
  assumes "kbd_ready w" "list_all is_byte (Keyboard_effect_data t tempo colors)"
  shows "Keyboard_global_effect t tempo colors w =
     (None, w\<lparr>trace := trace w @ [kbd_ioctl w (Keyboard_effect_data t tempo colors), Sleep 50]\<rparr>)"
  using assms
  by (simp add: Keyboard_global_effect_def Keyboard_send_ready time_sleep_def emit_def)

text \<open>
  Claim C5. On an open keyboard session that accepts the transfers, each of the seven public
  effect methods sends the reset frame first and the disable-effect frame second, whatever
  its arguments, so nothing of the effect itself comes before them. With colour components
  that are bytes (and between 1 and 256 colours for breathe and morph) the method completes,
  sends at least three frames, and the last one is the commit \<open>[0x8B, 0x01, 0xFF]\<close>.
\<close>

theorem keyboard_effect_bracket:
  assumes "kbd_fd (kbd w) = Some h" and "fail_at w = []"
  shows "starts_reset_disable (Keyboard_static r g b) w
       \<and> starts_reset_disable (Keyboard_breathe colors) w
       \<and> starts_reset_disable Keyboard_spectrum w
       \<and> starts_reset_disable Keyboard_wave w
       \<and> starts_reset_disable (Keyboard_pulse r g b) w
       \<and> starts_reset_disable (Keyboard_morph colors) w
       \<and> starts_reset_disable Keyboard_off w
       \<and> (is_byte r \<and> is_byte g \<and> is_byte b \<longrightarrow>
            ends_commit (Keyboard_static r g b) w \<and> ends_commit (Keyboard_pulse r g b) w)
       \<and> (colors_ok colors \<longrightarrow>
            ends_commit (Keyboard_breathe colors) w \<and> ends_commit (Keyboard_morph colors) w)
       \<and> ends_commit Keyboard_spectrum w
       \<and> ends_commit Keyboard_wave w
       \<and> ends_commit Keyboard_off w"
proof -
  have rdy: "kbd_ready w" using assms by (simp add: kbd_ready_def)
  have keys: "\<And>r g b v. is_byte r \<Longrightarrow> is_byte g \<Longrightarrow> is_byte b \<Longrightarrow> kbd_ready v \<Longrightarrow>
      \<exists>evs. Keyboard_set_all_keys r g b v = (None, v\<lparr>trace := trace v @ evs\<rparr>)"
    by (metis Keyboard_set_all_keys_ok)
  have eff: "\<And>t tempo cs v. is_byte t \<Longrightarrow> is_byte tempo \<Longrightarrow> colors_ok cs \<Longrightarrow> kbd_ready v \<Longrightarrow>
      \<exists>evs. Keyboard_global_effect t tempo cs v = (None, v\<lparr>trace := trace v @ evs\<rparr>)"
    by (metis Keyboard_global_effect_ok Keyboard_effect_data_bytes)
  have rainbow: "colors_ok [(0xFF, 0, 0), (0, 0xFF, 0), (0, 0, 0xFF)]"
    by (simp add: colors_ok_def is_byte_def)
  have s1: "starts_reset_disable (Keyboard_static r g b) w"
    unfolding Keyboard_static_def by (rule starts_reset_disable_run[OF rdy]) simp
  have s2: "starts_reset_disable (Keyboard_breathe colors) w"
    unfolding Keyboard_breathe_def by (rule starts_reset_disable_run[OF rdy]) simp
  have s3: "starts_reset_disable Keyboard_spectrum w"
    unfolding Keyboard_spectrum_def by (rule starts_reset_disable_run[OF rdy]) simp
  have s4: "starts_reset_disable Keyboard_wave w"
    unfolding Keyboard_wave_def by (rule starts_reset_disable_run[OF rdy]) simp
  have s5: "starts_reset_disable (Keyboard_pulse r g b) w"
    unfolding Keyboard_pulse_def by (rule starts_reset_disable_run[OF rdy]) simp
  have s6: "starts_reset_disable (Keyboard_morph colors) w"
    unfolding Keyboard_morph_def by (rule starts_reset_disable_run[OF rdy]) simp
  have s7: "starts_reset_disable Keyboard_off w"
    unfolding Keyboard_off_def Keyboard_static_def by (rule starts_reset_disable_run[OF rdy]) simp
  have e1: "ends_commit (Keyboard_static r g b) w" if "is_byte r" "is_byte g" "is_byte b"
    unfolding Keyboard_static_def by (rule ends_commit_run[OF rdy]) (rule keys[OF that])
  have e5: "ends_commit (Keyboard_pulse r g b) w" if "is_byte r" "is_byte g" "is_byte b"
    unfolding Keyboard_pulse_def
    by (rule ends_commit_run[OF rdy], rule eff) (simp_all add: is_byte_def colors_ok_def that[unfolded is_byte_def])
  have e2: "ends_commit (Keyboard_breathe colors) w" if "colors_ok colors"
    unfolding Keyboard_breathe_def
    by (rule ends_commit_run[OF rdy], rule eff) (simp_all add: is_byte_def that)
  have e6: "ends_commit (Keyboard_morph colors) w" if "colors_ok colors"
    unfolding Keyboard_morph_def
    by (rule ends_commit_run[OF rdy], rule eff) (simp_all add: is_byte_def that)
  have e3: "ends_commit Keyboard_spectrum w"
    unfolding Keyboard_spectrum_def
    by (rule ends_commit_run[OF rdy], rule eff) (simp_all add: is_byte_def rainbow)
  have e4: "ends_commit Keyboard_wave w"
    unfolding Keyboard_wave_def
    by (rule ends_commit_run[OF rdy], rule eff) (simp_all add: is_byte_def rainbow)
  have e7: "ends_commit Keyboard_off w"
    unfolding Keyboard_off_def Keyboard_static_def
    by (rule ends_commit_run[OF rdy], rule keys) (simp_all add: is_byte_def)
  show ?thesis
    using s1 s2 s3 s4 s5 s6 s7 e1 e2 e3 e4 e5 e6 e7 by blast
qed


theorem keyboard_effect_bracket_witness:
  "kbd_fd (kbd demo_world) = Some (Handle 0 ''/dev/hidraw0'') \<and> fail_at demo_world = []
   \<and> is_byte 0xFF \<and> is_byte 0x14 \<and> is_byte 0x93
   \<and> colors_ok [(0xFF, 0, 0), (0, 0xFF, 0)]
   \<and> starts_reset_disable (Keyboard_static 0xFF 0x14 0x93) demo_world
   \<and> ends_commit (Keyboard_static 0xFF 0x14 0x93) demo_world
   \<and> starts_reset_disable (Keyboard_breathe [(0xFF, 0, 0), (0, 0xFF, 0)]) demo_world
   \<and> ends_commit (Keyboard_breathe [(0xFF, 0, 0), (0, 0xFF, 0)]) demo_world"
proof -
  have c: "kbd_fd (kbd demo_world) = Some (Handle 0 ''/dev/hidraw0'')" by (simp add: demo_world_def)
  have f: "fail_at demo_world = []" by (simp add: demo_world_def)
  have b: "is_byte 0xFF \<and> is_byte 0x14 \<and> is_byte 0x93" by (simp add: is_byte_def)
  have k: "colors_ok [(0xFF, 0, 0), (0, 0xFF, 0)]" by (simp add: colors_ok_def is_byte_def)
  show ?thesis
    using keyboard_effect_bracket[OF c f, of "0xFF" "0x14" "0x93" "[(0xFF, 0, 0), (0, 0xFF, 0)]"] c f b k
    by simp
qed

lemma sent_frames_chunks:
  "sent_frames (concat (map (\<lambda>j. [Ioctl h q (f j), Sleep n]) js)) = map f js"
  by (induction js) simp_all


lemma chunk_frame_nth: "Keyboard_frame (Keyboard_chunk i r g b) ! 2 = 0x02"
  by (simp add: Keyboard_frame_def Keyboard_chunk_def)

lemma chunk_frame_ne_commit_keys: "Keyboard_frame (Keyboard_chunk i r g b) \<noteq> Keyboard_frame [0x8c, 0x13]"
proof
  assume "Keyboard_frame (Keyboard_chunk i r g b) = Keyboard_frame [0x8c, 0x13]"
  then have "Keyboard_frame (Keyboard_chunk i r g b) ! 2 = Keyboard_frame [0x8c, 0x13] ! 2" by simp
  then show False by (simp add: chunk_frame_nth) (simp add: Keyboard_frame_def)
qed

lemma chunk_frame_ne_commit: "Keyboard_frame (Keyboard_chunk i r g b) \<noteq> Keyboard_frame [0x8b, 0x01, 0xFF]"
proof
  assume "Keyboard_frame (Keyboard_chunk i r g b) = Keyboard_frame [0x8b, 0x01, 0xFF]"
  then have "Keyboard_frame (Keyboard_chunk i r g b) ! 1 = Keyboard_frame [0x8b, 0x01, 0xFF] ! 1" by simp
  then show False by (simp add: Keyboard_frame_def Keyboard_chunk_def)
qed

lemma count_list_map_none: "(\<And>j. f j \<noteq> x) \<Longrightarrow> count_list (map f js) x = 0"
  by (induction js) simp_all

text \<open>
  Claim C3. On an open keyboard session that accepts the transfers, with colour components
  that are bytes, static programming sends reset and disable-effect, then one chunk command
  for each of the \<open>ceil(136/15) = 10\<close> starts \<open>0, 15, ..., 135\<close>, then the commit-keys
  command \<open>[0x8C, 0x13]\<close> once and the commit command once: 14 frames in all. The chunk
  that starts at key \<open>15 j\<close> is \<open>3 + 4 n\<close> bytes long for its \<open>n\<close> keys, and its key
  number \<open>p\<close> is written as the source index plus one, followed by the colour.
\<close>

theorem static_keyboard_chunks:
  assumes "kbd_fd (kbd w) = Some h" and "fail_at w = []"
    and "is_byte r" and "is_byte g" and "is_byte b"
  shows "Keyboard_static r g b w =
     (None, w\<lparr>trace := trace w @
        [Ioctl h (HIDIOCSFEATURE 64) (Keyboard_frame [0x94]), Sleep 50,
         Ioctl h (HIDIOCSFEATURE 64) (Keyboard_frame [0x80, 0x01, 0xFE, 0x00, 0x00, 0x01, 0x01, 0x01]),
         Sleep 50]
        @ concat (map (\<lambda>j. [Ioctl h (HIDIOCSFEATURE 64)
                               (Keyboard_frame (Keyboard_chunk (15 * j) r g b)), Sleep 10])
                    [0 ..< 10])
        @ [Ioctl h (HIDIOCSFEATURE 64) (Keyboard_frame [0x8c, 0x13]), Sleep 10,
           Ioctl h (HIDIOCSFEATURE 64) (Keyboard_frame [0x8b, 0x01, 0xFF])]\<rparr>)
   \<and> length (py_range 0 0x88 15) = (0x88 + 14) div 15
   \<and> length (sent_frames (emitted (Keyboard_static r g b) w)) = 10 + 4
   \<and> count_list (sent_frames (emitted (Keyboard_static r g b) w)) (Keyboard_frame [0x8c, 0x13]) = 1
   \<and> count_list (sent_frames (emitted (Keyboard_static r g b) w)) (Keyboard_frame [0x8b, 0x01, 0xFF]) = 1
   \<and> (\<forall>j < 10.
         length (Keyboard_chunk (15 * j) r g b) = 3 + 4 * (min (15 * j + 15) 0x88 - 15 * j)
         \<and> (\<forall>p < min (15 * j + 15) 0x88 - 15 * j.
               Keyboard_chunk (15 * j) r g b ! (3 + 4 * p) = int (15 * j + p) + 1
             \<and> Keyboard_chunk (15 * j) r g b ! (3 + 4 * p + 1) = r
             \<and> Keyboard_chunk (15 * j) r g b ! (3 + 4 * p + 2) = g
             \<and> Keyboard_chunk (15 * j) r g b ! (3 + 4 * p + 3) = b))"
proof -
  have rdy: "kbd_ready w" using assms by (simp add: kbd_ready_def)
  have io: "\<And>d. kbd_ioctl w d = Ioctl h (HIDIOCSFEATURE 64) (Keyboard_frame d)"
    using assms(1) by (simp add: kbd_ioctl_def)
  let ?evs = "[Ioctl h (HIDIOCSFEATURE 64) (Keyboard_frame [0x94]), Sleep 50,
         Ioctl h (HIDIOCSFEATURE 64) (Keyboard_frame [0x80, 0x01, 0xFE, 0x00, 0x00, 0x01, 0x01, 0x01]),
         Sleep 50]
        @ concat (map (\<lambda>j. [Ioctl h (HIDIOCSFEATURE 64)
                               (Keyboard_frame (Keyboard_chunk (15 * j) r g b)), Sleep 10])
                    [0 ..< 10])
        @ [Ioctl h (HIDIOCSFEATURE 64) (Keyboard_frame [0x8c, 0x13]), Sleep 10,
           Ioctl h (HIDIOCSFEATURE 64) (Keyboard_frame [0x8b, 0x01, 0xFF])]"
  have res: "Keyboard_static r g b w = (None, w\<lparr>trace := trace w @ ?evs\<rparr>)"
    using Keyboard_static_ok[OF rdy assms(3-5)]
    by (simp add: io py_range_keys map_concat comp_def)
  have em: "emitted (Keyboard_static r g b) w = ?evs"
    unfolding emitted_def res by simp
  have fr: "sent_frames (emitted (Keyboard_static r g b) w) =
      [Keyboard_frame [0x94], Keyboard_frame [0x80, 0x01, 0xFE, 0x00, 0x00, 0x01, 0x01, 0x01]]
      @ map (\<lambda>j. Keyboard_frame (Keyboard_chunk (15 * j) r g b)) [0 ..< 10]
      @ [Keyboard_frame [0x8c, 0x13], Keyboard_frame [0x8b, 0x01, 0xFF]]"
    unfolding em by (simp add: sent_frames_append sent_frames_chunks del: upt_Suc)
  have n: "length (py_range 0 0x88 15) = (0x88 + 14) div 15"
    by (simp add: py_range_keys)
  have len: "length (sent_frames (emitted (Keyboard_static r g b) w)) = 10 + 4"
    unfolding fr by simp
  have small: "Keyboard_frame [0x94] \<noteq> Keyboard_frame [0x8c, 0x13]"
      "Keyboard_frame [0x80, 0x01, 0xFE, 0x00, 0x00, 0x01, 0x01, 0x01] \<noteq> Keyboard_frame [0x8c, 0x13]"
      "Keyboard_frame [0x8b, 0x01, 0xFF] \<noteq> Keyboard_frame [0x8c, 0x13]"
      "Keyboard_frame [0x94] \<noteq> Keyboard_frame [0x8b, 0x01, 0xFF]"
      "Keyboard_frame [0x80, 0x01, 0xFE, 0x00, 0x00, 0x01, 0x01, 0x01] \<noteq> Keyboard_frame [0x8b, 0x01, 0xFF]"
    by (simp_all add: Keyboard_frame_def)
  have c1: "count_list (sent_frames (emitted (Keyboard_static r g b) w)) (Keyboard_frame [0x8c, 0x13]) = 1"
    unfolding fr using small
    by (simp add: count_list_map_none chunk_frame_ne_commit_keys del: upt_Suc)
  have c2: "count_list (sent_frames (emitted (Keyboard_static r g b) w)) (Keyboard_frame [0x8b, 0x01, 0xFF]) = 1"
    unfolding fr using small small(3)[symmetric]
    by (simp add: count_list_map_none chunk_frame_ne_commit del: upt_Suc)
  have chunks: "\<forall>j < 10.
         length (Keyboard_chunk (15 * j) r g b) = 3 + 4 * (min (15 * j + 15) 0x88 - 15 * j)
         \<and> (\<forall>p < min (15 * j + 15) 0x88 - 15 * j.
               Keyboard_chunk (15 * j) r g b ! (3 + 4 * p) = int (15 * j + p) + 1
             \<and> Keyboard_chunk (15 * j) r g b ! (3 + 4 * p + 1) = r
             \<and> Keyboard_chunk (15 * j) r g b ! (3 + 4 * p + 2) = g
             \<and> Keyboard_chunk (15 * j) r g b ! (3 + 4 * p + 3) = b)"
    by (intro allI impI conjI) (simp_all only: Keyboard_chunk_length Keyboard_chunk_key)
  show ?thesis using res n len c1 c2 chunks by blast
qed

theorem static_keyboard_chunks_witness:
  "kbd_fd (kbd demo_world) = Some (Handle 0 ''/dev/hidraw0'') \<and> fail_at demo_world = []
   \<and> is_byte 0xFF \<and> is_byte 0x14 \<and> is_byte 0x93
   \<and> fst (Keyboard_static 0xFF 0x14 0x93 demo_world) = None
   \<and> length (sent_frames (emitted (Keyboard_static 0xFF 0x14 0x93) demo_world)) = 14
   \<and> length (Keyboard_chunk (15 * 9) 0xFF 0x14 0x93) = 7
   \<and> Keyboard_chunk (15 * 9) 0xFF 0x14 0x93 ! 3 = 136"
proof -
  have c: "kbd_fd (kbd demo_world) = Some (Handle 0 ''/dev/hidraw0'')" by (simp add: demo_world_def)
  have f: "fail_at demo_world = []" by (simp add: demo_world_def)
  have b: "is_byte 0xFF" "is_byte 0x14" "is_byte 0x93" by (simp_all add: is_byte_def)
  note t = static_keyboard_chunks[OF c f b]
  from t have r: "fst (Keyboard_static 0xFF 0x14 0x93 demo_world) = None" by simp
  from t have n: "length (sent_frames (emitted (Keyboard_static 0xFF 0x14 0x93) demo_world)) = 14"
    by simp
  from t have "\<forall>j < 10.
         length (Keyboard_chunk (15 * j) 0xFF 0x14 0x93) = 3 + 4 * (min (15 * j + 15) 0x88 - 15 * j)
         \<and> (\<forall>p < min (15 * j + 15) 0x88 - 15 * j.
               Keyboard_chunk (15 * j) 0xFF 0x14 0x93 ! (3 + 4 * p) = int (15 * j + p) + 1
             \<and> Keyboard_chunk (15 * j) 0xFF 0x14 0x93 ! (3 + 4 * p + 1) = 0xFF
             \<and> Keyboard_chunk (15 * j) 0xFF 0x14 0x93 ! (3 + 4 * p + 2) = 0x14
             \<and> Keyboard_chunk (15 * j) 0xFF 0x14 0x93 ! (3 + 4 * p + 3) = 0x93)"
    by blast
  from this[rule_format, of 9] have
    l: "length (Keyboard_chunk (15 * 9) 0xFF 0x14 0x93) = 3 + 4 * (min (15 * 9 + 15) 0x88 - 15 * 9)"
    and k: "\<forall>p < min (15 * 9 + 15) 0x88 - 15 * 9.
       Keyboard_chunk (15 * 9) 0xFF 0x14 0x93 ! (3 + 4 * p) = int (15 * 9 + p) + 1" by simp_all
  from k[rule_format, of 0] have k0: "Keyboard_chunk (15 * 9) 0xFF 0x14 0x93 ! 3 = 136" by simp
  from l have l7: "length (Keyboard_chunk (15 * 9) 0xFF 0x14 0x93) = 7" by simp
  show ?thesis using c f b r n l7 k0 by simp
qed

lemma Keyboard_effect_data_length:
  "length (Keyboard_effect_data t tempo colors) = 9 + 3 * length colors"
  by (simp add: Keyboard_effect_data_def length_concat_blocks[where k = 3] split_beta)

lemma Keyboard_breathe_ok:
  assumes "kbd_ready w" "colors_ok colors"
  shows "Keyboard_breathe colors w =
     (None, w\<lparr>trace := trace w @
        [kbd_ioctl w [0x94], Sleep 50,
         kbd_ioctl w [0x80, 0x01, 0xFE, 0x00, 0x00, 0x01, 0x01, 0x01], Sleep 50,
         kbd_ioctl w (Keyboard_effect_data 0x02 0x07 colors), Sleep 50,
         kbd_ioctl w [0x8b, 0x01, 0xFF]]\<rparr>)"
proof -
  have b: "list_all is_byte (Keyboard_effect_data 0x02 0x07 colors)"
    by (rule Keyboard_effect_data_bytes) (simp_all add: is_byte_def assms)
  show ?thesis
    using assms(1) b
    by (simp add: Keyboard_breathe_def Keyboard_reset_ok Keyboard_disable_effect_ok
        Keyboard_global_effect_ok Keyboard_commit_ok)
qed

text \<open>
  Claim C9. A payload of at most 63 bytes is framed in exactly 64 bytes. A global effect
  with 19 or more colours has a payload of \<open>9 + 3 n\<close> bytes, the padding list is empty,
  the frame is \<open>10 + 3 n > 64\<close> bytes long, and \<open>breathe\<close> still hands it to
  \<open>ioctl\<close> under the request code whose size field is 64; nothing raises.
\<close>

theorem keyboard_frame_overflow:
  assumes "kbd_fd (kbd w) = Some h" and "fail_at w = []"
    and "colors_ok colors" and "19 \<le> length colors"
  shows "(length data \<le> 63 \<longrightarrow> length (Keyboard_frame data) = 64)
   \<and> length (Keyboard_effect_data 0x02 0x07 colors) = 9 + 3 * length colors
   \<and> py_zeros (64 - 1 - int (length (Keyboard_effect_data 0x02 0x07 colors))) = []
   \<and> length (Keyboard_frame (Keyboard_effect_data 0x02 0x07 colors)) = 10 + 3 * length colors
   \<and> 64 < length (Keyboard_frame (Keyboard_effect_data 0x02 0x07 colors))
   \<and> Keyboard_breathe colors w =
       (None, w\<lparr>trace := trace w @
          [Ioctl h (HIDIOCSFEATURE 64) (Keyboard_frame [0x94]), Sleep 50,
           Ioctl h (HIDIOCSFEATURE 64)
             (Keyboard_frame [0x80, 0x01, 0xFE, 0x00, 0x00, 0x01, 0x01, 0x01]), Sleep 50,
           Ioctl h (HIDIOCSFEATURE 64) (Keyboard_frame (Keyboard_effect_data 0x02 0x07 colors)),
           Sleep 50,
           Ioctl h (HIDIOCSFEATURE 64) (Keyboard_frame [0x8b, 0x01, 0xFF])]\<rparr>)
   \<and> take_bit 14 (drop_bit 16 (HIDIOCSFEATURE 64)) = 64"
proof -
  have rdy: "kbd_ready w" using assms by (simp add: kbd_ready_def)
  have io: "\<And>d. kbd_ioctl w d = Ioctl h (HIDIOCSFEATURE 64) (Keyboard_frame d)"
    using assms(1) by (simp add: kbd_ioctl_def)
  have z: "py_zeros (64 - 1 - int (length (Keyboard_effect_data 0x02 0x07 colors))) = []"
    using assms(4) by (simp add: Keyboard_effect_data_length py_zeros_def)
  have l: "length (Keyboard_frame (Keyboard_effect_data 0x02 0x07 colors)) = 10 + 3 * length colors"
    unfolding Keyboard_frame_def z by (simp add: Keyboard_effect_data_length)
  have s: "take_bit 14 (drop_bit 16 (HIDIOCSFEATURE 64)) = 64"
    by (simp add: HIDIOCSFEATURE_def)
  show ?thesis
    using Keyboard_breathe_ok[OF rdy assms(3)] z l s assms(4)
    by (simp add: io Keyboard_frame_length Keyboard_effect_data_length)
qed

theorem keyboard_frame_overflow_witness:
  "kbd_fd (kbd demo_world) = Some (Handle 0 ''/dev/hidraw0'') \<and> fail_at demo_world = []
   \<and> colors_ok rainbow19 \<and> 19 \<le> length rainbow19
   \<and> length (Keyboard_frame (Keyboard_effect_data 0x02 0x07 rainbow19)) = 67
   \<and> fst (Keyboard_breathe rainbow19 demo_world) = None"
proof -
  have c: "kbd_fd (kbd demo_world) = Some (Handle 0 ''/dev/hidraw0'')" by (simp add: demo_world_def)
  have f: "fail_at demo_world = []" by (simp add: demo_world_def)
  have k: "colors_ok rainbow19" by (simp add: colors_ok_def rainbow19_def is_byte_def list_all_iff)
  have n: "19 \<le> length rainbow19" by (simp add: rainbow19_def)
  have m: "length rainbow19 = 19" by (simp add: rainbow19_def)
  show ?thesis
    using keyboard_frame_overflow[OF c f k n] c f k n m by simp
qed

lemma Keyboard_effect_data_color:
  assumes "i < length colors"
  shows "(Keyboard_effect_data t tempo colors ! (9 + 3 * i),
          Keyboard_effect_data t tempo colors ! (9 + 3 * i + 1),
          Keyboard_effect_data t tempo colors ! (9 + 3 * i + 2)) = colors ! i"
proof -
  let ?f = "\<lambda>(r, g, b). [r, g, b :: int]"
  have len: "\<And>x. length (?f x) = 3" by (simp add: split_beta)
  have n: "\<And>q. q < 3 \<Longrightarrow>
      Keyboard_effect_data t tempo colors ! (9 + (3 * i + q)) = ?f (colors ! i) ! q"
    using assms nth_concat_blocks[of colors ?f 3 i] len
    by (simp add: Keyboard_effect_data_def nth_append)
  obtain r g b where c: "colors ! i = (r, g, b)" by (cases "colors ! i")
  show ?thesis
    using n[of 0] n[of 1] n[of 2] by (simp add: c add.assoc)
qed

text \<open>
  Claim C8. On both controllers \<open>off\<close> is \<open>static\<close> with the colour \<open>(0, 0, 0)\<close>
  on the same targets: same outcome, same final state, same effects, in every state.
\<close>

theorem off_is_static_black:
  "Keyboard_off w = Keyboard_static 0 0 0 w
   \<and> Tron_off ring logos w = Tron_static 0 0 0 ring logos w
   \<and> emitted Keyboard_off w = emitted (Keyboard_static 0 0 0) w
   \<and> emitted (Tron_off ring logos) w = emitted (Tron_static 0 0 0 ring logos) w"
  by (simp add: Keyboard_off_def Tron_off_def emitted_def)

lemma tron_ready_trace [simp]: "tron_ready (w\<lparr>trace := evs\<rparr>) = tron_ready w"
  by (simp add: tron_ready_def)

lemma tron_write_trace [simp]: "tron_write (w\<lparr>trace := evs\<rparr>) = tron_write w"
  by (simp add: tron_write_def fun_eq_iff)

lemma Tron_send_ready:
  "tron_ready w \<Longrightarrow> list_all is_byte data \<Longrightarrow>
   Tron_send data w = (None, w\<lparr>trace := trace w @ [tron_write w data, Sleep 20]\<rparr>)"
  by (auto simp add: tron_ready_def tron_write_def Tron_send_ok)

lemma Tron_group_ok:
  assumes "tron_ready v" "tron_write v = tron_write w" "list_all is_byte actions"
    "list_all is_byte zones" "length zones < 256" "is_byte state"
  shows "run [Tron_send [0x22, 0x00, 0x04, 0x00, state],
              Tron_send [0x22, 0x00, 0x01, 0x00, state],
              Tron_send ([0x23, 0x01, 0x00, int (length zones)] @ zones),
              Tron_send ([0x24] @ actions),
              Tron_send [0x22, 0x00, 0x02, 0x00, state]] v =
    (None, v\<lparr>trace := trace v @
       [tron_write w [0x22, 0x00, 0x04, 0x00, state], Sleep 20,
        tron_write w [0x22, 0x00, 0x01, 0x00, state], Sleep 20,
        tron_write w ([0x23, 0x01, 0x00, int (length zones)] @ zones), Sleep 20,
        tron_write w ([0x24] @ actions), Sleep 20,
        tron_write w [0x22, 0x00, 0x02, 0x00, state], Sleep 20]\<rparr>)"
  using assms
  by (simp add: Tron_send_ready is_byte_def)

lemma Tron_set_logos_ok:
  assumes "tron_ready w" "list_all is_byte actions" "list_all is_byte zones" "length zones < 256"
  shows "Tron_set_logos actions (Some zones) w =
    (None, w\<lparr>trace := trace w @
       [tron_write w [0x21, 0x00, 0x03, 0x00, 0xFF], Sleep 20, Sleep 50]
       @ concat (map (\<lambda>state.
            [tron_write w [0x22, 0x00, 0x04, 0x00, state], Sleep 20,
             tron_write w [0x22, 0x00, 0x01, 0x00, state], Sleep 20,
             tron_write w ([0x23, 0x01, 0x00, int (length zones)] @ zones), Sleep 20,
             tron_write w ([0x24] @ actions), Sleep 20,
             tron_write w [0x22, 0x00, 0x02, 0x00, state], Sleep 20])
          POWER_STATES)
       @ [tron_write w [0x21, 0x00, 0x05, 0x00, 0xFF], Sleep 20]\<rparr>)"
proof -
  let ?f = "\<lambda>state.
                run [Tron_send [0x22, 0x00, 0x04, 0x00, state],
                     Tron_send [0x22, 0x00, 0x01, 0x00, state],
                     Tron_send ([0x23, 0x01, 0x00, int (length zones)] @ zones),
                     Tron_send ([0x24] @ actions),
                     Tron_send [0x22, 0x00, 0x02, 0x00, state]]"
  let ?g = "\<lambda>state.
            [tron_write w [0x22, 0x00, 0x04, 0x00, state], Sleep 20,
             tron_write w [0x22, 0x00, 0x01, 0x00, state], Sleep 20,
             tron_write w ([0x23, 0x01, 0x00, int (length zones)] @ zones), Sleep 20,
             tron_write w ([0x24] @ actions), Sleep 20,
             tron_write w [0x22, 0x00, 0x02, 0x00, state], Sleep 20]"
  let ?w1 = "w\<lparr>trace := trace w @ [tron_write w [0x21, 0x00, 0x03, 0x00, 0xFF], Sleep 20, Sleep 50]\<rparr>"
  have states: "\<And>s. s \<in> set POWER_STATES \<Longrightarrow> is_byte s"
    by (auto simp add: POWER_STATES_def is_byte_def)
  have loop: "run (map ?f POWER_STATES) ?w1 =
      (None, ?w1\<lparr>trace := trace ?w1 @ concat (map ?g POWER_STATES)\<rparr>)"
  proof (rule run_map_emits[where P = "\<lambda>v. tron_ready v \<and> tron_write v = tron_write w"])
    fix x v
    assume "x \<in> set POWER_STATES" and "tron_ready v \<and> tron_write v = tron_write w"
    then show "?f x v = (None, v\<lparr>trace := trace v @ ?g x\<rparr>)"
      using Tron_group_ok[of v w actions zones x] assms(2-4) states by blast
  qed (simp_all add: assms)
  have pre: "run [Tron_send [0x21, 0x00, 0x03, 0x00, 0xFF], time_sleep 50] w = (None, ?w1)"
    using assms(1) by (simp add: Tron_send_ready is_byte_def time_sleep_def emit_def)
  have post: "run [Tron_send [0x21, 0x00, 0x05, 0x00, 0xFF]] v =
      (None, v\<lparr>trace := trace v @ [tron_write v [0x21, 0x00, 0x05, 0x00, 0xFF], Sleep 20]\<rparr>)"
    if "tron_ready v" for v
    using that by (simp add: Tron_send_ready is_byte_def)
  have r1: "tron_ready (?w1\<lparr>trace := trace ?w1 @ concat (map ?g POWER_STATES)\<rparr>)"
    using assms(1) by simp
  show ?thesis
    unfolding Tron_set_logos_def Let_def option.case run_append pre loop prod.case option.case
      post[OF r1]
    by simp
qed

text \<open>
  Claim C2. On an open ring/logo session that accepts the transfers, for every action and
  zone list of bytes (fewer than 256 zones, so that the count is a byte), logo programming
  writes the pending-animation commit and waits, then for each of the six power-state
  codes \<open>0x5B .. 0x60\<close>, in that order, the group remove, start, select, action, save,
  and then the play command once. The number of groups does not depend on the zones or on
  the action. Without a zone argument the zones are \<open>[0, 1]\<close>.
\<close>

theorem logos_six_groups:
  assumes "tron_fd (tron w) = Some h" and "fail_at w = []"
    and "list_all is_byte actions" and "list_all is_byte zones" and "length zones < 256"
  shows "Tron_set_logos actions (Some zones) w =
    (None, w\<lparr>trace := trace w @
       [OsWrite h (Tron_frame [0x21, 0x00, 0x03, 0x00, 0xFF]), Sleep 20, Sleep 50]
       @ concat (map (\<lambda>state.
            [OsWrite h (Tron_frame [0x22, 0x00, 0x04, 0x00, state]), Sleep 20,
             OsWrite h (Tron_frame [0x22, 0x00, 0x01, 0x00, state]), Sleep 20,
             OsWrite h (Tron_frame ([0x23, 0x01, 0x00, int (length zones)] @ zones)), Sleep 20,
             OsWrite h (Tron_frame ([0x24] @ actions)), Sleep 20,
             OsWrite h (Tron_frame [0x22, 0x00, 0x02, 0x00, state]), Sleep 20])
          [0x5b, 0x5c, 0x5d, 0x5e, 0x5f, 0x60])
       @ [OsWrite h (Tron_frame [0x21, 0x00, 0x05, 0x00, 0xFF]), Sleep 20]\<rparr>)
   \<and> Tron_set_logos actions None w = Tron_set_logos actions (Some [0, 1]) w
   \<and> length POWER_STATES = 6"
proof -
  have rdy: "tron_ready w" using assms by (simp add: tron_ready_def)
  have io: "\<And>d. tron_write w d = OsWrite h (Tron_frame d)"
    using assms(1) by (simp add: tron_write_def)
  have a: "Tron_set_logos actions None w = Tron_set_logos actions (Some [0, 1]) w"
    by (simp add: Tron_set_logos_def LOGO_ZONES_def)
  show ?thesis
    using Tron_set_logos_ok[OF rdy assms(3-5)] a
    by (simp add: io POWER_STATES_def)
qed

theorem logos_six_groups_witness:
  "tron_fd (tron demo_world) = Some (Handle 1 ''/dev/hidraw1'') \<and> fail_at demo_world = []
   \<and> list_all is_byte (Tron_static_action 0xFF 0x14 0x93) \<and> list_all is_byte [0, 1]
   \<and> length [0, 1 :: int] < 256
   \<and> fst (Tron_set_logos (Tron_static_action 0xFF 0x14 0x93) (Some [0, 1]) demo_world) = None
   \<and> length (trace (snd (Tron_set_logos (Tron_static_action 0xFF 0x14 0x93) (Some [0, 1]) demo_world)))
       = 3 + 6 * 10 + 2"
proof -
  have c: "tron_fd (tron demo_world) = Some (Handle 1 ''/dev/hidraw1'')" by (simp add: demo_world_def)
  have f: "fail_at demo_world = []" by (simp add: demo_world_def)
  have a: "list_all is_byte (Tron_static_action 0xFF 0x14 0x93)"
    by (simp add: Tron_static_action_def COLOR_EFFECT_def COLOR_MODE_def is_byte_def)
  have z: "list_all is_byte [0, 1]" by (simp add: is_byte_def)
  have n: "length [0, 1 :: int] < 256" by simp
  have t: "trace demo_world = []" by (simp add: demo_world_def)
  show ?thesis
    using logos_six_groups[OF c f a z n] c f a z n t by simp
qed

lemma py_in_iff: "py_in sub s \<longleftrightarrow> (\<exists>ps ss. s = ps @ sub @ ss)"
proof (induction s)
  case Nil
  then show ?case by simp
next
  case (Cons c cs)
  show ?case
  proof
    assume "py_in sub (c # cs)"
    then consider "prefix sub (c # cs)" | "py_in sub cs" by auto
    then show "\<exists>ps ss. c # cs = ps @ sub @ ss"
    proof cases
      case 1
      then obtain ss where "c # cs = sub @ ss" by (auto simp add: prefix_def)
      then have "c # cs = [] @ sub @ ss" by simp
      then show ?thesis by blast
    next
      case 2
      then obtain ps ss where "cs = ps @ sub @ ss" using Cons.IH by blast
      then have "c # cs = (c # ps) @ sub @ ss" by simp
      then show ?thesis by blast
    qed
  next
    assume "\<exists>ps ss. c # cs = ps @ sub @ ss"
    then obtain ps ss where e: "c # cs = ps @ sub @ ss" by blast
    show "py_in sub (c # cs)"
    proof (cases ps)
      case Nil
      then have "prefix sub (c # cs)" using e by (simp add: prefix_def)
      then show ?thesis by simp
    next
      case (Cons a ps')
      then have "cs = ps' @ sub @ ss" using e by simp
      then have "py_in sub cs" using Cons.IH by blast
      then show ?thesis by simp
    qed
  qed
qed

lemma is_hidraw_uevent_parts:
  assumes "is_hidraw_uevent p"
  shows "4 < length (py_split CHR ''/'' p)" and "prefix ''hidraw'' (py_split CHR ''/'' p ! 4)"
  using assms
  by (auto simp add: is_hidraw_uevent_def split: list.splits)

lemma find_hidraw_loop_none:
  assumes "\<And>p. p \<in> set ps \<Longrightarrow> \<exists>c. rd p = Some c \<and> \<not> (py_in vid c \<and> py_in pid c)"
  shows "find_hidraw_loop rd vid pid ps = Inr None"
  using assms
proof (induction ps)
  case Nil
  then show ?case by simp
next
  case (Cons p ps)
  obtain c where "rd p = Some c" "\<not> (py_in vid c \<and> py_in pid c)"
    using Cons.prems[of p] by auto
  moreover have "find_hidraw_loop rd vid pid ps = Inr None"
    using Cons.IH Cons.prems by simp
  ultimately show ?case by auto
qed

lemma find_hidraw_loop_first:
  assumes "\<And>q. q \<in> set xs \<Longrightarrow> \<exists>c. rd q = Some c \<and> \<not> (py_in vid c \<and> py_in pid c)"
    and "rd p = Some c" and "py_in vid c" and "py_in pid c"
    and "4 < length (py_split CHR ''/'' p)"
  shows "find_hidraw_loop rd vid pid (xs @ p # ys) = Inr (Some (''/dev/'' @ py_split CHR ''/'' p ! 4))"
  using assms
proof (induction xs)
  case Nil
  then show ?case by simp
next
  case (Cons q xs)
  obtain c' where "rd q = Some c'" "\<not> (py_in vid c' \<and> py_in pid c')"
    using Cons.prems(1)[of q] by auto
  moreover have "find_hidraw_loop rd vid pid (xs @ p # ys) =
      Inr (Some (''/dev/'' @ py_split CHR ''/'' p ! 4))"
    using Cons.IH Cons.prems by simp
  ultimately show ?case by auto
qed

lemma glob_hidraw_set:
  "set (sort (glob_hidraw w)) = {p \<in> fst ` set (sysfs w). is_hidraw_uevent p}"
  by (auto simp add: glob_hidraw_def)

lemma glob_hidraw_content:
  assumes "distinct (map fst (sysfs w))" and "p \<in> set (sort (glob_hidraw w))"
  shows "\<exists>c. (p, c) \<in> set (sysfs w) \<and> map_of (sysfs w) p = Some c \<and> is_hidraw_uevent p"
proof -
  from assms(2) obtain c where "(p, c) \<in> set (sysfs w)" and "is_hidraw_uevent p"
    by (auto simp add: glob_hidraw_def)
  then show ?thesis using assms(1) by (auto intro: map_of_is_SomeI)
qed

lemma find_hidraw_no_match:
  assumes "distinct (map fst (sysfs w))"
    and "\<And>p c. (p, c) \<in> set (sysfs w) \<Longrightarrow> is_hidraw_uevent p \<Longrightarrow> \<not> (py_in vid c \<and> py_in pid c)"
  shows "find_hidraw w vid pid = Inr None"
  unfolding find_hidraw_def
proof (rule find_hidraw_loop_none)
  fix p
  assume "p \<in> set (sort (glob_hidraw w))"
  then obtain c where "(p, c) \<in> set (sysfs w)" "map_of (sysfs w) p = Some c" "is_hidraw_uevent p"
    using glob_hidraw_content[OF assms(1)] by blast
  then show "\<exists>c. map_of (sysfs w) p = Some c \<and> \<not> (py_in vid c \<and> py_in pid c)"
    using assms(2) by blast
qed

lemma find_hidraw_at:
  assumes d: "distinct (map fst (sysfs w))"
    and split: "sort (glob_hidraw w) = xs @ p # ys"
    and pc: "map_of (sysfs w) p = Some c" "py_in vid c" "py_in pid c"
    and before: "\<And>q c'. q \<in> set xs \<Longrightarrow> map_of (sysfs w) q = Some c' \<Longrightarrow>
                   \<not> (py_in vid c' \<and> py_in pid c')"
  shows "find_hidraw w vid pid = Inr (Some (''/dev/'' @ py_split CHR ''/'' p ! 4))"
proof -
  have pin: "p \<in> set (sort (glob_hidraw w))" using split by simp
  then have hp: "is_hidraw_uevent p" by (auto simp add: glob_hidraw_def)
  have xs: "\<exists>c. map_of (sysfs w) q = Some c \<and> \<not> (py_in vid c \<and> py_in pid c)" if "q \<in> set xs" for q
  proof -
    have "q \<in> set (sort (glob_hidraw w))" using that split by simp
    then obtain c' where "map_of (sysfs w) q = Some c'"
      using glob_hidraw_content[OF d] by blast
    then show ?thesis using before[OF that] by blast
  qed
  show ?thesis
    unfolding find_hidraw_def split
    by (rule find_hidraw_loop_first) (use xs pc is_hidraw_uevent_parts(1)[OF hp] in auto)
qed

lemma find_hidraw_minimal:
  assumes d: "distinct (map fst (sysfs w))"
    and pc: "(p, c) \<in> set (sysfs w)" "is_hidraw_uevent p" "py_in vid c" "py_in pid c"
    and least: "\<And>p' c'. (p', c') \<in> set (sysfs w) \<Longrightarrow> is_hidraw_uevent p' \<Longrightarrow>
                  py_in vid c' \<Longrightarrow> py_in pid c' \<Longrightarrow> p \<le> p'"
  shows "find_hidraw w vid pid = Inr (Some (''/dev/'' @ py_split CHR ''/'' p ! 4))"
proof -
  let ?ps = "sort (glob_hidraw w)"
  have "p \<in> set ?ps" using pc(1,2) by (force simp add: glob_hidraw_def)
  then obtain xs ys where split: "?ps = xs @ p # ys" by (meson split_list)
  have srt: "sorted (xs @ p # ys)" using split sorted_sort[of "glob_hidraw w"] by simp
  have dst: "distinct (xs @ p # ys)"
  proof -
    have "distinct (glob_hidraw w)"
      using d by (simp add: glob_hidraw_def distinct_map_filter)
    then show ?thesis using split by (metis distinct_sort)
  qed
  have mp: "map_of (sysfs w) p = Some c" using d pc(1) by (rule map_of_is_SomeI)
  have before: "\<not> (py_in vid c' \<and> py_in pid c')"
    if q: "q \<in> set xs" and mq: "map_of (sysfs w) q = Some c'" for q c'
  proof
    assume m: "py_in vid c' \<and> py_in pid c'"
    have "q \<in> set ?ps" using q split by simp
    then have hq: "is_hidraw_uevent q" by (auto simp add: glob_hidraw_def)
    have "(q, c') \<in> set (sysfs w)" using mq by (rule map_of_SomeD)
    then have "p \<le> q" using least hq m by blast
    moreover have "q \<le> p" using srt q by (auto simp add: sorted_append)
    moreover have "q \<noteq> p" using dst q by auto
    ultimately show False by simp
  qed
  show ?thesis by (rule find_hidraw_at[OF d split mp pc(3,4) before])
qed

lemma find_hidraw_total:
  assumes d: "distinct (map fst (sysfs w))"
  shows "find_hidraw w vid pid = Inr None \<or>
     (\<exists>p c. (p, c) \<in> set (sysfs w) \<and> is_hidraw_uevent p \<and> py_in vid c \<and> py_in pid c \<and>
        find_hidraw w vid pid = Inr (Some (''/dev/'' @ py_split CHR ''/'' p ! 4)))"
proof (cases "\<exists>p \<in> set (sort (glob_hidraw w)).
    \<exists>c. map_of (sysfs w) p = Some c \<and> py_in vid c \<and> py_in pid c")
  case True
  then obtain xs p ys where split: "sort (glob_hidraw w) = xs @ p # ys"
    and hit: "\<exists>c. map_of (sysfs w) p = Some c \<and> py_in vid c \<and> py_in pid c"
    and first: "\<forall>q \<in> set xs. \<not> (\<exists>c. map_of (sysfs w) q = Some c \<and> py_in vid c \<and> py_in pid c)"
    using split_list_first_prop[of "sort (glob_hidraw w)"
        "\<lambda>p. \<exists>c. map_of (sysfs w) p = Some c \<and> py_in vid c \<and> py_in pid c"]
    by blast
  from hit obtain c where c: "map_of (sysfs w) p = Some c" "py_in vid c" "py_in pid c" by blast
  have "find_hidraw w vid pid = Inr (Some (''/dev/'' @ py_split CHR ''/'' p ! 4))"
    by (rule find_hidraw_at[OF d split c]) (use first in blast)
  moreover have "(p, c) \<in> set (sysfs w)" using c(1) by (rule map_of_SomeD)
  moreover have "is_hidraw_uevent p" using split glob_hidraw_set[of w]
    by (metis (mono_tags, lifting) in_set_conv_decomp mem_Collect_eq)
  ultimately show ?thesis using c by blast
next
  case False
  have "find_hidraw w vid pid = Inr None"
  proof (rule find_hidraw_no_match[OF d])
    fix p c
    assume pc: "(p, c) \<in> set (sysfs w)" "is_hidraw_uevent p"
    then have "p \<in> set (sort (glob_hidraw w))" by (force simp add: glob_hidraw_def)
    moreover have "map_of (sysfs w) p = Some c" using d pc(1) by (rule map_of_is_SomeI)
    ultimately show "\<not> (py_in vid c \<and> py_in pid c)" using False by blast
  qed
  then show ?thesis by simp
qed

lemma find_hidraw_same_contents:
  assumes "distinct (map fst (sysfs w))" "distinct (map fst (sysfs w'))"
    and "set (sysfs w') = set (sysfs w)"
  shows "find_hidraw w' vid pid = find_hidraw w vid pid"
proof -
  have m: "map_of (sysfs w') = map_of (sysfs w)"
    using assms by (simp add: map_of_inject_set)
  have s: "set (glob_hidraw w') = set (glob_hidraw w)"
    using assms(3) by (simp add: glob_hidraw_def)
  have "distinct (glob_hidraw w)" "distinct (glob_hidraw w')"
    using assms(1,2) by (simp_all add: glob_hidraw_def distinct_map_filter)
  then have "sort (glob_hidraw w') = sort (glob_hidraw w)"
    using s by (intro sorted_distinct_set_unique) (simp_all add: distinct_sort)
  then show ?thesis using m by (simp add: find_hidraw_def)
qed

text \<open>
  Claim C7. The registry is the list of descriptor files (path and text) in the order the
  scan yields them, one entry per path. The locator returns \<open>None\<close> exactly when no
  candidate's text contains both identifiers; otherwise it returns \<open>/dev/\<close> followed by
  the fifth component of the least path, in the lexicographic order of strings, among the
  candidates whose text contains both. It never raises, and two registries with the same
  entries, in whatever order, give the same result. Containment is that of a contiguous
  piece of the text.
\<close>

theorem find_hidraw_first_in_sorted_order:
  assumes "distinct (map fst (sysfs w))"
  shows "(find_hidraw w vid pid = Inr None \<longleftrightarrow>
            (\<forall>(p, c) \<in> set (sysfs w). is_hidraw_uevent p \<longrightarrow> \<not> (py_in vid c \<and> py_in pid c)))
   \<and> (\<forall>p c. (p, c) \<in> set (sysfs w) \<and> is_hidraw_uevent p \<and> py_in vid c \<and> py_in pid c
          \<and> (\<forall>(p', c') \<in> set (sysfs w).
                is_hidraw_uevent p' \<and> py_in vid c' \<and> py_in pid c' \<longrightarrow> p \<le> p')
        \<longrightarrow> find_hidraw w vid pid = Inr (Some (''/dev/'' @ py_split CHR ''/'' p ! 4))
            \<and> prefix ''hidraw'' (py_split CHR ''/'' p ! 4))
   \<and> (\<forall>e. find_hidraw w vid pid \<noteq> Inl e)
   \<and> (\<forall>w'. distinct (map fst (sysfs w')) \<and> set (sysfs w') = set (sysfs w)
        \<longrightarrow> find_hidraw w' vid pid = find_hidraw w vid pid)
   \<and> (py_in sub s \<longleftrightarrow> (\<exists>ps ss. s = ps @ sub @ ss))"
proof -
  have none: "find_hidraw w vid pid = Inr None \<longleftrightarrow>
      (\<forall>(p, c) \<in> set (sysfs w). is_hidraw_uevent p \<longrightarrow> \<not> (py_in vid c \<and> py_in pid c))"
  proof
    assume n: "find_hidraw w vid pid = Inr None"
    show "\<forall>(p, c) \<in> set (sysfs w). is_hidraw_uevent p \<longrightarrow> \<not> (py_in vid c \<and> py_in pid c)"
    proof (rule ccontr)
      assume "\<not> (\<forall>(p, c) \<in> set (sysfs w). is_hidraw_uevent p \<longrightarrow> \<not> (py_in vid c \<and> py_in pid c))"
      then have ex: "\<exists>p \<in> set (sort (glob_hidraw w)).
          \<exists>c. map_of (sysfs w) p = Some c \<and> py_in vid c \<and> py_in pid c"
        using assms by (force simp add: glob_hidraw_def intro: map_of_is_SomeI)
      then obtain xs p ys where split: "sort (glob_hidraw w) = xs @ p # ys"
        and hit: "\<exists>c. map_of (sysfs w) p = Some c \<and> py_in vid c \<and> py_in pid c"
        and first: "\<forall>q \<in> set xs. \<not> (\<exists>c. map_of (sysfs w) q = Some c \<and> py_in vid c \<and> py_in pid c)"
        using split_list_first_prop[of "sort (glob_hidraw w)"
            "\<lambda>p. \<exists>c. map_of (sysfs w) p = Some c \<and> py_in vid c \<and> py_in pid c"]
        by blast
      from hit obtain c where c: "map_of (sysfs w) p = Some c" "py_in vid c" "py_in pid c" by blast
      have "find_hidraw w vid pid = Inr (Some (''/dev/'' @ py_split CHR ''/'' p ! 4))"
        by (rule find_hidraw_at[OF assms split c]) (use first in blast)
      then show False using n by simp
    qed
  next
    assume "\<forall>(p, c) \<in> set (sysfs w). is_hidraw_uevent p \<longrightarrow> \<not> (py_in vid c \<and> py_in pid c)"
    then show "find_hidraw w vid pid = Inr None"
      by (intro find_hidraw_no_match[OF assms]) blast
  qed
  have least: "\<forall>p c. (p, c) \<in> set (sysfs w) \<and> is_hidraw_uevent p \<and> py_in vid c \<and> py_in pid c
          \<and> (\<forall>(p', c') \<in> set (sysfs w).
                is_hidraw_uevent p' \<and> py_in vid c' \<and> py_in pid c' \<longrightarrow> p \<le> p')
        \<longrightarrow> find_hidraw w vid pid = Inr (Some (''/dev/'' @ py_split CHR ''/'' p ! 4))
            \<and> prefix ''hidraw'' (py_split CHR ''/'' p ! 4)"
  proof (intro allI impI)
    fix p c
    assume a: "(p, c) \<in> set (sysfs w) \<and> is_hidraw_uevent p \<and> py_in vid c \<and> py_in pid c
          \<and> (\<forall>(p', c') \<in> set (sysfs w).
                is_hidraw_uevent p' \<and> py_in vid c' \<and> py_in pid c' \<longrightarrow> p \<le> p')"
    then have "find_hidraw w vid pid = Inr (Some (''/dev/'' @ py_split CHR ''/'' p ! 4))"
      by (intro find_hidraw_minimal[OF assms, of p c]) blast+
    then show "find_hidraw w vid pid = Inr (Some (''/dev/'' @ py_split CHR ''/'' p ! 4))
            \<and> prefix ''hidraw'' (py_split CHR ''/'' p ! 4)"
      using a is_hidraw_uevent_parts(2) by blast
  qed
  have noerr: "\<forall>e. find_hidraw w vid pid \<noteq> Inl e"
    using find_hidraw_total[OF assms, of vid pid] by auto
  have same: "\<forall>w'. distinct (map fst (sysfs w')) \<and> set (sysfs w') = set (sysfs w)
        \<longrightarrow> find_hidraw w' vid pid = find_hidraw w vid pid"
    using find_hidraw_same_contents[OF assms] by blast
  show ?thesis using none least noerr same py_in_iff[of sub s] by blast
qed

theorem find_hidraw_first_in_sorted_order_witness:
  "distinct (map fst (sysfs sample_world))
   \<and> find_hidraw sample_world ''0D62'' ''BABC'' = Inr (Some ''/dev/hidraw0'')
   \<and> find_hidraw sample_world ''187C'' ''0551'' = Inr None"
proof -
  have d: "distinct (map fst (sysfs sample_world))"
    by (simp add: sample_world_def sample_sysfs_def)
  note t = find_hidraw_first_in_sorted_order[OF d]
  let ?p = "''/sys/class/hidraw/hidraw0/device/uevent''"
  let ?c = "''HID_ID=0003:00000D62:0000BABC'' @ [CHR 0x0A] @ ''HID_PHYS=usb-1/input0'' @ [CHR 0x0A]"
  have pre: "(?p, ?c) \<in> set (sysfs sample_world) \<and> is_hidraw_uevent ?p
      \<and> py_in ''0D62'' ?c \<and> py_in ''BABC'' ?c
      \<and> (\<forall>(p', c') \<in> set (sysfs sample_world).
            is_hidraw_uevent p' \<and> py_in ''0D62'' c' \<and> py_in ''BABC'' c' \<longrightarrow> ?p \<le> p')"
    by (simp add: sample_world_def sample_sysfs_def is_hidraw_uevent_def)
  have a: "find_hidraw sample_world ''0D62'' ''BABC'' = Inr (Some (''/dev/'' @ py_split CHR ''/'' ?p ! 4))"
    using t[of "''0D62''" "''BABC''"] pre by blast
  have n: "\<forall>(p, c) \<in> set (sysfs sample_world).
      is_hidraw_uevent p \<longrightarrow> \<not> (py_in ''187C'' c \<and> py_in ''0551'' c)"
    by (simp add: sample_world_def sample_sysfs_def)
  have b: "find_hidraw sample_world ''187C'' ''0551'' = Inr None"
    using t[of "''187C''" "''0551''"] n by blast
  show ?thesis using d a b by simp
qed

lemma transfers_onlyI:
  "(\<And>w. \<exists>evs. snd (a w) = w\<lparr>trace := trace w @ evs\<rparr> \<and> \<not> list_ex is_session_event evs)
   \<Longrightarrow> transfers_only a"
  by (simp add: transfers_only_def)

lemma transfers_onlyD:
  "transfers_only a \<Longrightarrow>
   \<exists>evs. snd (a w) = w\<lparr>trace := trace w @ evs\<rparr> \<and> \<not> list_ex is_session_event evs"
  by (simp add: transfers_only_def)

lemma no_events: "\<exists>evs. w = w\<lparr>trace := trace w @ evs\<rparr> \<and> \<not> list_ex is_session_event evs"
  by (rule exI[of _ "[]"]) simp

lemma transfers_only_emit: "\<not> is_session_event e \<Longrightarrow> transfers_only (emit e)"
  by (rule transfers_onlyI) (auto simp add: emit_def intro: exI[of _ "[e]"])

lemma transfers_only_raise [simp]: "transfers_only (raise e)"
  by (rule transfers_onlyI) (simp add: raise_def no_events)

lemma transfers_only_skip [simp]: "transfers_only skip"
  by (rule transfers_onlyI) (simp add: skip_def no_events)

lemma transfers_only_sleep [simp]: "transfers_only (time_sleep n)"
  by (simp add: time_sleep_def transfers_only_emit)

lemma transfers_only_run: "list_all transfers_only as \<Longrightarrow> transfers_only (run as)"
proof (induction as)
  case Nil
  show ?case by (rule transfers_onlyI) (simp add: no_events)
next
  case (Cons a as)
  then have a: "transfers_only a" and r: "transfers_only (run as)" by simp_all
  show ?case
  proof (rule transfers_onlyI)
    fix w
    obtain r1 w1 where aw: "a w = (r1, w1)" by (cases "a w")
    obtain e1 where w1: "w1 = w\<lparr>trace := trace w @ e1\<rparr>" and q1: "\<not> list_ex is_session_event e1"
      using transfers_onlyD[OF a, of w] aw by auto
    show "\<exists>evs. snd (run (a # as) w) = w\<lparr>trace := trace w @ evs\<rparr> \<and> \<not> list_ex is_session_event evs"
    proof (cases r1)
      case (Some e)
      then show ?thesis using aw w1 q1 by auto
    next
      case None
      obtain e2 where "snd (run as w1) = w1\<lparr>trace := trace w1 @ e2\<rparr>"
        and q2: "\<not> list_ex is_session_event e2"
        using transfers_onlyD[OF r, of w1] by auto
      then have "snd (run (a # as) w) = w\<lparr>trace := trace w @ (e1 @ e2)\<rparr>"
        using aw None w1 by simp
      moreover have "\<not> list_ex is_session_event (e1 @ e2)" using q1 q2 by simp
      ultimately show ?thesis by blast
    qed
  qed
qed

lemma transfers_only_Keyboard_send [simp]: "transfers_only (Keyboard_send data)"
  by (rule transfers_onlyI)
     (auto simp add: Keyboard_send_def device_io_def emit_def no_events
           split: sum.splits option.splits)

lemma transfers_only_Tron_send [simp]: "transfers_only (Tron_send data)"
  by (rule transfers_onlyI)
     (auto simp add: Tron_send_def device_io_def emit_def time_sleep_def no_events
           split: sum.splits option.splits)

lemma transfers_only_Keyboard_parts [simp]:
  "transfers_only Keyboard_reset"
  "transfers_only Keyboard_commit"
  "transfers_only Keyboard_disable_effect"
  "transfers_only (Keyboard_global_effect t tempo colors)"
  by (simp_all add: Keyboard_reset_def Keyboard_commit_def Keyboard_disable_effect_def
      Keyboard_global_effect_def transfers_only_run)

lemma transfers_only_Keyboard_set_all_keys [simp]: "transfers_only (Keyboard_set_all_keys r g b)"
  unfolding Keyboard_set_all_keys_def
  by (rule transfers_only_run) (simp add: list_all_iff transfers_only_run)

lemma transfers_only_Keyboard [simp]:
  "transfers_only (Keyboard_static r g b)"
  "transfers_only (Keyboard_breathe colors)"
  "transfers_only Keyboard_spectrum"
  "transfers_only Keyboard_wave"
  "transfers_only (Keyboard_pulse r g b)"
  "transfers_only (Keyboard_morph colors)"
  "transfers_only Keyboard_off"
  by (simp_all add: Keyboard_static_def Keyboard_breathe_def Keyboard_spectrum_def
      Keyboard_wave_def Keyboard_pulse_def Keyboard_morph_def Keyboard_off_def transfers_only_run)

lemma transfers_only_Tron_set_ring [simp]: "transfers_only (Tron_set_ring actions zones)"
  by (simp add: Tron_set_ring_def Let_def transfers_only_run)

lemma transfers_only_Tron_set_logos [simp]: "transfers_only (Tron_set_logos actions zones)"
  unfolding Tron_set_logos_def Let_def
  by (rule transfers_only_run) (simp add: list_all_iff transfers_only_run)

lemma transfers_only_Tron [simp]:
  "transfers_only (Tron_static r g b ring logos)"
  "transfers_only (Tron_breathe colors ring logos)"
  "transfers_only (Tron_morph colors ring logos)"
  "transfers_only (Tron_spectrum ring logos)"
  "transfers_only (Tron_pulse r g b ring logos)"
  "transfers_only (Tron_off ring logos)"
  by (simp_all add: Tron_static_def Tron_breathe_def Tron_morph_def Tron_spectrum_def
      Tron_pulse_def Tron_off_def Let_def transfers_only_run)





subsection \<open>Colour lists of \<open>breathe\<close>\<close>

lemma Tron_morph_actions_take: "Tron_morph_actions (take 3 colors) = Tron_morph_actions colors"
  by (simp add: Tron_morph_actions_def)

lemma Tron_morph_actions_bytes:
  assumes "list_all (\<lambda>(r, g, b). is_byte r \<and> is_byte g \<and> is_byte b) (take 3 colors)"
  shows "list_all is_byte (Tron_morph_actions colors)"
  using assms
  by (auto simp add: Tron_morph_actions_def list_all_iff is_byte_def MORPH_EFFECT_def MORPH_MODE_def)

lemma Tron_set_ring_ok:
  assumes "tron_ready w" "list_all is_byte actions" "list_all is_byte zones" "length zones < 256"
  shows "Tron_set_ring actions (Some zones) w =
    (None, w\<lparr>trace := trace w @
       [tron_write w [0x21, 0x00, 0x04, 0x00, 0xFF], Sleep 20,
        tron_write w [0x21, 0x00, 0x01, 0x00, 0xFF], Sleep 20,
        tron_write w ([0x23, 0x01, 0x00, int (length zones)] @ zones), Sleep 20,
        tron_write w ([0x24] @ actions), Sleep 20,
        tron_write w [0x21, 0x00, 0x03, 0x00, 0xFF], Sleep 20]\<rparr>)"
  using assms
  by (simp add: Tron_set_ring_def Tron_send_ready is_byte_def)

lemma Tron_set_ring_default:
  "Tron_set_ring actions None = Tron_set_ring actions (Some [10, 11, 12, 13, 14, 15, 16, 17, 18, 19])"
  by (simp add: Tron_set_ring_def RING_ZONES_def)

lemma Tron_set_logos_default:
  "Tron_set_logos actions None = Tron_set_logos actions (Some [0, 1])"
  by (simp add: Tron_set_logos_def LOGO_ZONES_def)

lemma Tron_breathe_ok:
  assumes "tron_ready w" and "list_all is_byte (Tron_morph_actions colors)"
  shows "Tron_breathe colors ring logos w =
    (None, w\<lparr>trace := trace w
       @ (if ring then
            [tron_write w [0x21, 0x00, 0x04, 0x00, 0xFF], Sleep 20,
             tron_write w [0x21, 0x00, 0x01, 0x00, 0xFF], Sleep 20,
             tron_write w [0x23, 0x01, 0x00, 10, 10, 11, 12, 13, 14, 15, 16, 17, 18, 19], Sleep 20,
             tron_write w ([0x24] @ Tron_morph_actions colors), Sleep 20,
             tron_write w [0x21, 0x00, 0x03, 0x00, 0xFF], Sleep 20]
          else [])
       @ (if logos then
            [tron_write w [0x21, 0x00, 0x03, 0x00, 0xFF], Sleep 20, Sleep 50]
            @ concat (map (\<lambda>state.
                 [tron_write w [0x22, 0x00, 0x04, 0x00, state], Sleep 20,
                  tron_write w [0x22, 0x00, 0x01, 0x00, state], Sleep 20,
                  tron_write w [0x23, 0x01, 0x00, 2, 0, 1], Sleep 20,
                  tron_write w ([0x24] @ Tron_morph_actions colors), Sleep 20,
                  tron_write w [0x22, 0x00, 0x02, 0x00, state], Sleep 20])
               POWER_STATES)
            @ [tron_write w [0x21, 0x00, 0x05, 0x00, 0xFF], Sleep 20]
          else [])\<rparr>)"
proof -
  have z: "list_all is_byte [10, 11, 12, 13, 14, 15, 16, 17, 18, 19]" "list_all is_byte [0, 1]"
    by (simp_all add: is_byte_def)
  have r: "Tron_set_ring (Tron_morph_actions colors) None v =
    (None, v\<lparr>trace := trace v @
       [tron_write v [0x21, 0x00, 0x04, 0x00, 0xFF], Sleep 20,
        tron_write v [0x21, 0x00, 0x01, 0x00, 0xFF], Sleep 20,
        tron_write v [0x23, 0x01, 0x00, 10, 10, 11, 12, 13, 14, 15, 16, 17, 18, 19], Sleep 20,
        tron_write v ([0x24] @ Tron_morph_actions colors), Sleep 20,
        tron_write v [0x21, 0x00, 0x03, 0x00, 0xFF], Sleep 20]\<rparr>)" if "tron_ready v" for v
    unfolding Tron_set_ring_default
    using Tron_set_ring_ok[OF that assms(2) z(1)] by simp
  have l: "Tron_set_logos (Tron_morph_actions colors) None v =
    (None, v\<lparr>trace := trace v @
       [tron_write v [0x21, 0x00, 0x03, 0x00, 0xFF], Sleep 20, Sleep 50]
       @ concat (map (\<lambda>state.
            [tron_write v [0x22, 0x00, 0x04, 0x00, state], Sleep 20,
             tron_write v [0x22, 0x00, 0x01, 0x00, state], Sleep 20,
             tron_write v [0x23, 0x01, 0x00, 2, 0, 1], Sleep 20,
             tron_write v ([0x24] @ Tron_morph_actions colors), Sleep 20,
             tron_write v [0x22, 0x00, 0x02, 0x00, state], Sleep 20])
          POWER_STATES)
       @ [tron_write v [0x21, 0x00, 0x05, 0x00, 0xFF], Sleep 20]\<rparr>)" if "tron_ready v" for v
    unfolding Tron_set_logos_default
    using Tron_set_logos_ok[OF that assms(2) z(2)] by simp
  show ?thesis
  proof (cases ring)
    case True
    show ?thesis
    proof (cases logos)
      case True
      show ?thesis
        using \<open>ring\<close> True assms(1)
        by (simp add: Tron_breathe_def Let_def r l)
    next
      case False
      show ?thesis
        using \<open>ring\<close> False assms(1)
        by (simp add: Tron_breathe_def Let_def r skip_def)
    qed
  next
    case False
    show ?thesis
    proof (cases logos)
      case True
      show ?thesis
        using \<open>\<not> ring\<close> True assms(1)
        by (simp add: Tron_breathe_def Let_def l skip_def)
    next
      case False
      show ?thesis
        using \<open>\<not> ring\<close> False
        by (simp add: Tron_breathe_def Let_def skip_def)
    qed
  qed
qed


text \<open>
  Claim C4. For four or more colours the ring/logo morph action is the three blocks of the
  first three colours (24 bytes). On an open ring/logo session that accepts the transfers,
  with the first three colours made of bytes, \<open>breathe\<close> programs the ring and the
  logos as targeted, and the action it pushes each time is \<open>0x24\<close> followed by that
  morph action: the colours after the third are never looked at, and \<open>breathe\<close> does
  exactly what it does on the first three colours alone. The keyboard's global-effect
  payload has the byte \<open>len(colors) - 1\<close> at index 8 and then the three bytes of every
  colour supplied; it is the third frame \<open>breathe\<close> sends on the keyboard.
\<close>

theorem breathe_color_cap:
  assumes "4 \<le> length colors"
  shows "Tron_morph_actions colors =
           (case colors ! 0 of (r, g, b) \<Rightarrow> [0x02, 0x07, 0xCF, 0x00, 0x64, r, g, b])
         @ (case colors ! 1 of (r, g, b) \<Rightarrow> [0x02, 0x07, 0xCF, 0x00, 0x64, r, g, b])
         @ (case colors ! 2 of (r, g, b) \<Rightarrow> [0x02, 0x07, 0xCF, 0x00, 0x64, r, g, b])
   \<and> length (Tron_morph_actions colors) = 24
   \<and> Tron_breathe colors ring logos = Tron_breathe (take 3 colors) ring logos
   \<and> (tron_fd (tron v) = Some ht \<and> fail_at v = []
        \<and> list_all (\<lambda>(r, g, b). is_byte r \<and> is_byte g \<and> is_byte b) (take 3 colors) \<longrightarrow>
        Tron_breathe colors ring logos v =
          (None, v\<lparr>trace := trace v
             @ (if ring then
                  [OsWrite ht (Tron_frame [0x21, 0x00, 0x04, 0x00, 0xFF]), Sleep 20,
                   OsWrite ht (Tron_frame [0x21, 0x00, 0x01, 0x00, 0xFF]), Sleep 20,
                   OsWrite ht (Tron_frame
                     [0x23, 0x01, 0x00, 10, 10, 11, 12, 13, 14, 15, 16, 17, 18, 19]), Sleep 20,
                   OsWrite ht (Tron_frame ([0x24] @ Tron_morph_actions colors)), Sleep 20,
                   OsWrite ht (Tron_frame [0x21, 0x00, 0x03, 0x00, 0xFF]), Sleep 20]
                else [])
             @ (if logos then
                  [OsWrite ht (Tron_frame [0x21, 0x00, 0x03, 0x00, 0xFF]), Sleep 20, Sleep 50]
                  @ concat (map (\<lambda>state.
                       [OsWrite ht (Tron_frame [0x22, 0x00, 0x04, 0x00, state]), Sleep 20,
                        OsWrite ht (Tron_frame [0x22, 0x00, 0x01, 0x00, state]), Sleep 20,
                        OsWrite ht (Tron_frame [0x23, 0x01, 0x00, 2, 0, 1]), Sleep 20,
                        OsWrite ht (Tron_frame ([0x24] @ Tron_morph_actions colors)), Sleep 20,
                        OsWrite ht (Tron_frame [0x22, 0x00, 0x02, 0x00, state]), Sleep 20])
                     [0x5b, 0x5c, 0x5d, 0x5e, 0x5f, 0x60])
                  @ [OsWrite ht (Tron_frame [0x21, 0x00, 0x05, 0x00, 0xFF]), Sleep 20]
                else [])\<rparr>))
   \<and> take 9 (Keyboard_effect_data t tempo colors) =
       [0x80, t, tempo, 0x00, 0x00, 0x01, 0x01, 0x01, int (length colors) - 1]
   \<and> length (Keyboard_effect_data t tempo colors) = 9 + 3 * length colors
   \<and> (\<forall>i < length colors.
        (Keyboard_effect_data t tempo colors ! (9 + 3 * i),
         Keyboard_effect_data t tempo colors ! (9 + 3 * i + 1),
         Keyboard_effect_data t tempo colors ! (9 + 3 * i + 2)) = colors ! i)
   \<and> (kbd_fd (kbd w) = Some h \<and> fail_at w = [] \<and> colors_ok colors \<longrightarrow>
        fst (Keyboard_breathe colors w) = None \<and>
        sent_frames (emitted (Keyboard_breathe colors) w) ! 2 =
          Keyboard_frame (Keyboard_effect_data 0x02 0x07 colors))"
proof -
  obtain c0 c1 c2 c3 rest where cs: "colors = c0 # c1 # c2 # c3 # rest"
    using assms by (cases colors; cases "tl colors"; cases "tl (tl colors)"; cases "tl (tl (tl colors))") auto
  have m: "Tron_morph_actions colors =
           (case colors ! 0 of (r, g, b) \<Rightarrow> [0x02, 0x07, 0xCF, 0x00, 0x64, r, g, b])
         @ (case colors ! 1 of (r, g, b) \<Rightarrow> [0x02, 0x07, 0xCF, 0x00, 0x64, r, g, b])
         @ (case colors ! 2 of (r, g, b) \<Rightarrow> [0x02, 0x07, 0xCF, 0x00, 0x64, r, g, b])"
    by (simp add: cs Tron_morph_actions_def MORPH_EFFECT_def MORPH_MODE_def)
  have l: "length (Tron_morph_actions colors) = 24"
    unfolding m by (simp add: split_beta)
  have b: "Tron_breathe colors ring logos = Tron_breathe (take 3 colors) ring logos"
    by (simp add: Tron_breathe_def Tron_morph_actions_take)
  have tr: "tron_fd (tron v) = Some ht \<and> fail_at v = []
        \<and> list_all (\<lambda>(r, g, b). is_byte r \<and> is_byte g \<and> is_byte b) (take 3 colors) \<longrightarrow>
        Tron_breathe colors ring logos v =
          (None, v\<lparr>trace := trace v
             @ (if ring then
                  [OsWrite ht (Tron_frame [0x21, 0x00, 0x04, 0x00, 0xFF]), Sleep 20,
                   OsWrite ht (Tron_frame [0x21, 0x00, 0x01, 0x00, 0xFF]), Sleep 20,
                   OsWrite ht (Tron_frame
                     [0x23, 0x01, 0x00, 10, 10, 11, 12, 13, 14, 15, 16, 17, 18, 19]), Sleep 20,
                   OsWrite ht (Tron_frame ([0x24] @ Tron_morph_actions colors)), Sleep 20,
                   OsWrite ht (Tron_frame [0x21, 0x00, 0x03, 0x00, 0xFF]), Sleep 20]
                else [])
             @ (if logos then
                  [OsWrite ht (Tron_frame [0x21, 0x00, 0x03, 0x00, 0xFF]), Sleep 20, Sleep 50]
                  @ concat (map (\<lambda>state.
                       [OsWrite ht (Tron_frame [0x22, 0x00, 0x04, 0x00, state]), Sleep 20,
                        OsWrite ht (Tron_frame [0x22, 0x00, 0x01, 0x00, state]), Sleep 20,
                        OsWrite ht (Tron_frame [0x23, 0x01, 0x00, 2, 0, 1]), Sleep 20,
                        OsWrite ht (Tron_frame ([0x24] @ Tron_morph_actions colors)), Sleep 20,
                        OsWrite ht (Tron_frame [0x22, 0x00, 0x02, 0x00, state]), Sleep 20])
                     [0x5b, 0x5c, 0x5d, 0x5e, 0x5f, 0x60])
                  @ [OsWrite ht (Tron_frame [0x21, 0x00, 0x05, 0x00, 0xFF]), Sleep 20]
                else [])\<rparr>)"
  proof (intro impI)
    assume a: "tron_fd (tron v) = Some ht \<and> fail_at v = []
        \<and> list_all (\<lambda>(r, g, b). is_byte r \<and> is_byte g \<and> is_byte b) (take 3 colors)"
    then have rdy: "tron_ready v" by (simp add: tron_ready_def)
    have io: "\<And>d. tron_write v d = OsWrite ht (Tron_frame d)"
      using a by (simp add: tron_write_def)
    have mb: "list_all is_byte (Tron_morph_actions colors)"
      using a by (intro Tron_morph_actions_bytes) simp
    show "Tron_breathe colors ring logos v =
          (None, v\<lparr>trace := trace v
             @ (if ring then
                  [OsWrite ht (Tron_frame [0x21, 0x00, 0x04, 0x00, 0xFF]), Sleep 20,
                   OsWrite ht (Tron_frame [0x21, 0x00, 0x01, 0x00, 0xFF]), Sleep 20,
                   OsWrite ht (Tron_frame
                     [0x23, 0x01, 0x00, 10, 10, 11, 12, 13, 14, 15, 16, 17, 18, 19]), Sleep 20,
                   OsWrite ht (Tron_frame ([0x24] @ Tron_morph_actions colors)), Sleep 20,
                   OsWrite ht (Tron_frame [0x21, 0x00, 0x03, 0x00, 0xFF]), Sleep 20]
                else [])
             @ (if logos then
                  [OsWrite ht (Tron_frame [0x21, 0x00, 0x03, 0x00, 0xFF]), Sleep 20, Sleep 50]
                  @ concat (map (\<lambda>state.
                       [OsWrite ht (Tron_frame [0x22, 0x00, 0x04, 0x00, state]), Sleep 20,
                        OsWrite ht (Tron_frame [0x22, 0x00, 0x01, 0x00, state]), Sleep 20,
                        OsWrite ht (Tron_frame [0x23, 0x01, 0x00, 2, 0, 1]), Sleep 20,
                        OsWrite ht (Tron_frame ([0x24] @ Tron_morph_actions colors)), Sleep 20,
                        OsWrite ht (Tron_frame [0x22, 0x00, 0x02, 0x00, state]), Sleep 20])
                     [0x5b, 0x5c, 0x5d, 0x5e, 0x5f, 0x60])
                  @ [OsWrite ht (Tron_frame [0x21, 0x00, 0x05, 0x00, 0xFF]), Sleep 20]
                else [])\<rparr>)"
      unfolding Tron_breathe_ok[OF rdy mb] io POWER_STATES_def ..
  qed
  have h9: "take 9 (Keyboard_effect_data t tempo colors) =
       [0x80, t, tempo, 0x00, 0x00, 0x01, 0x01, 0x01, int (length colors) - 1]"
    by (simp add: Keyboard_effect_data_def)
  have k: "kbd_fd (kbd w) = Some h \<and> fail_at w = [] \<and> colors_ok colors \<longrightarrow>
        fst (Keyboard_breathe colors w) = None \<and>
        sent_frames (emitted (Keyboard_breathe colors) w) ! 2 =
          Keyboard_frame (Keyboard_effect_data 0x02 0x07 colors)"
  proof (intro impI)
    assume a: "kbd_fd (kbd w) = Some h \<and> fail_at w = [] \<and> colors_ok colors"
    then have rdy: "kbd_ready w" by (simp add: kbd_ready_def)
    show "fst (Keyboard_breathe colors w) = None \<and>
        sent_frames (emitted (Keyboard_breathe colors) w) ! 2 =
          Keyboard_frame (Keyboard_effect_data 0x02 0x07 colors)"
      using Keyboard_breathe_ok[OF rdy] a by (simp add: emitted_def kbd_ioctl_def)
  qed
  show ?thesis
    using m l b tr h9 k Keyboard_effect_data_length Keyboard_effect_data_color by blast
qed

theorem breathe_color_cap_witness:
  "4 \<le> length [(1, 2, 3), (4, 5, 6), (7, 8, 9), (10, 11, 12 :: int)]
   \<and> Tron_morph_actions [(1, 2, 3), (4, 5, 6), (7, 8, 9), (10, 11, 12)] =
       [0x02, 0x07, 0xCF, 0x00, 0x64, 1, 2, 3,
        0x02, 0x07, 0xCF, 0x00, 0x64, 4, 5, 6,
        0x02, 0x07, 0xCF, 0x00, 0x64, 7, 8, 9]
   \<and> tron_fd (tron tron_only_world) = Some (Handle 0 ''/dev/hidraw1'')
   \<and> fail_at tron_only_world = []
   \<and> list_all (\<lambda>(r, g, b). is_byte r \<and> is_byte g \<and> is_byte b)
        (take 3 [(1, 2, 3), (4, 5, 6), (7, 8, 9), (10, 11, 12)])
   \<and> Tron_breathe [(1, 2, 3), (4, 5, 6), (7, 8, 9), (10, 11, 12)] True False tron_only_world =
       (None, tron_only_world\<lparr>trace :=
          [OsWrite (Handle 0 ''/dev/hidraw1'') (Tron_frame [0x21, 0x00, 0x04, 0x00, 0xFF]), Sleep 20,
           OsWrite (Handle 0 ''/dev/hidraw1'') (Tron_frame [0x21, 0x00, 0x01, 0x00, 0xFF]), Sleep 20,
           OsWrite (Handle 0 ''/dev/hidraw1'') (Tron_frame
             [0x23, 0x01, 0x00, 10, 10, 11, 12, 13, 14, 15, 16, 17, 18, 19]), Sleep 20,
           OsWrite (Handle 0 ''/dev/hidraw1'') (Tron_frame
             [0x24, 0x02, 0x07, 0xCF, 0x00, 0x64, 1, 2, 3,
                    0x02, 0x07, 0xCF, 0x00, 0x64, 4, 5, 6,
                    0x02, 0x07, 0xCF, 0x00, 0x64, 7, 8, 9]), Sleep 20,
           OsWrite (Handle 0 ''/dev/hidraw1'') (Tron_frame [0x21, 0x00, 0x03, 0x00, 0xFF]),
           Sleep 20]\<rparr>)
   \<and> take 9 (Keyboard_effect_data 0x02 0x07 [(1, 2, 3), (4, 5, 6), (7, 8, 9), (10, 11, 12)]) =
       [0x80, 0x02, 0x07, 0x00, 0x00, 0x01, 0x01, 0x01, 3]
   \<and> length (Keyboard_effect_data 0x02 0x07 [(1, 2, 3), (4, 5, 6), (7, 8, 9), (10, 11, 12)]) = 21
   \<and> kbd_fd (kbd kbd_only_world) = Some (Handle 0 ''/dev/hidraw0'')
   \<and> fail_at kbd_only_world = []
   \<and> colors_ok [(1, 2, 3), (4, 5, 6), (7, 8, 9), (10, 11, 12)]
   \<and> fst (Keyboard_breathe [(1, 2, 3), (4, 5, 6), (7, 8, 9), (10, 11, 12)] kbd_only_world) = None
   \<and> sent_frames (emitted (Keyboard_breathe [(1, 2, 3), (4, 5, 6), (7, 8, 9), (10, 11, 12)])
        kbd_only_world) ! 2 =
       Keyboard_frame (Keyboard_effect_data 0x02 0x07 [(1, 2, 3), (4, 5, 6), (7, 8, 9), (10, 11, 12)])"
proof -
  have n: "4 \<le> length [(1, 2, 3), (4, 5, 6), (7, 8, 9), (10, 11, 12 :: int)]" by simp
  have a: "tron_fd (tron tron_only_world) = Some (Handle 0 ''/dev/hidraw1'')"
    "fail_at tron_only_world = []" "trace tron_only_world = []"
    by (simp_all add: tron_only_world_def)
  have c: "list_all (\<lambda>(r, g, b). is_byte r \<and> is_byte g \<and> is_byte b)
        (take 3 [(1, 2, 3), (4, 5, 6), (7, 8, 9), (10, 11, 12)])"
    by (simp add: is_byte_def)
  have k: "kbd_fd (kbd kbd_only_world) = Some (Handle 0 ''/dev/hidraw0'')"
    "fail_at kbd_only_world = []"
    by (simp_all add: kbd_only_world_def)
  have o: "colors_ok [(1, 2, 3), (4, 5, 6), (7, 8, 9), (10, 11, 12)]"
    by (simp add: colors_ok_def is_byte_def)
  note t = breathe_color_cap[OF n, where t = "0x02" and tempo = "0x07" and v = tron_only_world
        and ht = "Handle 0 ''/dev/hidraw1''" and ring = True and logos = False
        and w = kbd_only_world and h = "Handle 0 ''/dev/hidraw0''"]
  have m: "Tron_morph_actions [(1, 2, 3), (4, 5, 6), (7, 8, 9), (10, 11, 12)] =
       [0x02, 0x07, 0xCF, 0x00, 0x64, 1, 2, 3,
        0x02, 0x07, 0xCF, 0x00, 0x64, 4, 5, 6,
        0x02, 0x07, 0xCF, 0x00, 0x64, 7, 8, 9]"
    using t[THEN conjunct1] by simp
  have b: "Tron_breathe [(1, 2, 3), (4, 5, 6), (7, 8, 9), (10, 11, 12)] True False tron_only_world =
       (None, tron_only_world\<lparr>trace :=
          [OsWrite (Handle 0 ''/dev/hidraw1'') (Tron_frame [0x21, 0x00, 0x04, 0x00, 0xFF]), Sleep 20,
           OsWrite (Handle 0 ''/dev/hidraw1'') (Tron_frame [0x21, 0x00, 0x01, 0x00, 0xFF]), Sleep 20,
           OsWrite (Handle 0 ''/dev/hidraw1'') (Tron_frame
             [0x23, 0x01, 0x00, 10, 10, 11, 12, 13, 14, 15, 16, 17, 18, 19]), Sleep 20,
           OsWrite (Handle 0 ''/dev/hidraw1'') (Tron_frame
             [0x24, 0x02, 0x07, 0xCF, 0x00, 0x64, 1, 2, 3,
                    0x02, 0x07, 0xCF, 0x00, 0x64, 4, 5, 6,
                    0x02, 0x07, 0xCF, 0x00, 0x64, 7, 8, 9]), Sleep 20,
           OsWrite (Handle 0 ''/dev/hidraw1'') (Tron_frame [0x21, 0x00, 0x03, 0x00, 0xFF]),
           Sleep 20]\<rparr>)"
    using t[THEN conjunct2, THEN conjunct2, THEN conjunct2, THEN conjunct1] a c
    by (simp add: m)
  have e: "take 9 (Keyboard_effect_data 0x02 0x07 [(1, 2, 3), (4, 5, 6), (7, 8, 9), (10, 11, 12)]) =
       [0x80, 0x02, 0x07, 0x00, 0x00, 0x01, 0x01, 0x01, 3]
   \<and> length (Keyboard_effect_data 0x02 0x07 [(1, 2, 3), (4, 5, 6), (7, 8, 9), (10, 11, 12)]) = 21"
    using t[THEN conjunct2, THEN conjunct2, THEN conjunct2, THEN conjunct2] by simp
  have f: "fst (Keyboard_breathe [(1, 2, 3), (4, 5, 6), (7, 8, 9), (10, 11, 12)] kbd_only_world) = None
   \<and> sent_frames (emitted (Keyboard_breathe [(1, 2, 3), (4, 5, 6), (7, 8, 9), (10, 11, 12)])
        kbd_only_world) ! 2 =
       Keyboard_frame (Keyboard_effect_data 0x02 0x07 [(1, 2, 3), (4, 5, 6), (7, 8, 9), (10, 11, 12)])"
    using t[THEN conjunct2, THEN conjunct2, THEN conjunct2, THEN conjunct2] k o by blast
  show ?thesis
    using n m a(1,2) c b e k o f by blast
qed

subsection \<open>Teardown\<close>














subsection \<open>The way of \<open>main\<close> to its \<open>try\<close> statement\<close>










subsection \<open>The \<open>try\<close> statement of \<open>main\<close>\<close>








end
